theory Spec2Isabelle
  imports Complex_Main "HOL-Library.Char_ord" "HOL-Library.List_Lexorder"
    "HOL-Library.Product_Lexorder" "HOL-Library.Multiset" "HOL-Library.Sublist"
begin

section \<open>Python strings and numeric literals\<close>

text \<open>
  A Python \<open>str\<close> is modelled as a \<open>string\<close> of ASCII characters. Finite floats are modelled
  by the exact real number they denote: binary64 rounding, overflow to infinity and the sign
  of zero are not part of the model. Only ASCII white space, ASCII letters and ASCII digits
  are recognised by the string functions below.
\<close>

definition is_space :: "char \<Rightarrow> bool" where
  "is_space c \<longleftrightarrow> c \<in> set [CHR '' '', CHR 0x09, CHR 0x0A, CHR 0x0B, CHR 0x0C, CHR 0x0D,
     CHR 0x1C, CHR 0x1D, CHR 0x1E, CHR 0x1F]"

definition is_digit :: "char \<Rightarrow> bool" where
  "is_digit c \<longleftrightarrow> c \<in> set ''0123456789''"

definition is_lower :: "char \<Rightarrow> bool" where
  "is_lower c \<longleftrightarrow> c \<in> set ''abcdefghijklmnopqrstuvwxyz''"

definition is_upper :: "char \<Rightarrow> bool" where
  "is_upper c \<longleftrightarrow> c \<in> set ''ABCDEFGHIJKLMNOPQRSTUVWXYZ''"

definition is_letter :: "char \<Rightarrow> bool" where
  "is_letter c \<longleftrightarrow> is_lower c \<or> is_upper c"

text \<open>\<open>str.strip()\<close>: remove leading and trailing white space.\<close>

definition py_strip :: "string \<Rightarrow> string" where
  "py_strip s = rev (dropWhile is_space (rev (dropWhile is_space s)))"

text \<open>\<open>str.upper()\<close> and \<open>str.lower()\<close> on ASCII letters; other characters are kept.\<close>

definition upper_char :: "char \<Rightarrow> char" where
  "upper_char c = (case map_of (zip ''abcdefghijklmnopqrstuvwxyz'' ''ABCDEFGHIJKLMNOPQRSTUVWXYZ'') c
     of Some u \<Rightarrow> u | None \<Rightarrow> c)"

definition lower_char :: "char \<Rightarrow> char" where
  "lower_char c = (case map_of (zip ''ABCDEFGHIJKLMNOPQRSTUVWXYZ'' ''abcdefghijklmnopqrstuvwxyz'') c
     of Some l \<Rightarrow> l | None \<Rightarrow> c)"

definition py_upper :: "string \<Rightarrow> string" where
  "py_upper s = map upper_char s"

definition py_lower :: "string \<Rightarrow> string" where
  "py_lower s = map lower_char s"

text \<open>\<open>s.split(d)\<close> for a one-character separator: never an empty list.\<close>

fun split_on :: "char \<Rightarrow> string \<Rightarrow> string list" where
  "split_on d [] = [[]]"
| "split_on d (c # cs) =
     (if c = d then [] # split_on d cs
      else (case split_on d cs of p # ps \<Rightarrow> (c # p) # ps | [] \<Rightarrow> [[c]]))"

text \<open>
  The grammar of \<open>float(s)\<close> and \<open>int(s)\<close>. A digit part is a non-empty run of digits in
  which single underscores may separate digits.
\<close>

fun digitpart :: "string \<Rightarrow> bool" where
  "digitpart [] = False"
| "digitpart [c] = is_digit c"
| "digitpart (c # d # cs) =
     (is_digit c \<and> (if d = CHR ''_'' then digitpart cs else digitpart (d # cs)))"

definition digit_val :: "char \<Rightarrow> nat" where
  "digit_val c = of_char c - 48"

definition digits_val :: "string \<Rightarrow> nat" where
  "digits_val s = foldl (\<lambda>a c. 10 * a + digit_val c) 0 (filter is_digit s)"

definition strip_sign :: "string \<Rightarrow> bool \<times> string" where
  "strip_sign s = (case s of [] \<Rightarrow> (False, [])
     | c # cs \<Rightarrow> if c = CHR ''-'' then (True, cs)
                else if c = CHR ''+'' then (False, cs) else (False, s))"

definition parse_number :: "string \<Rightarrow> real option" where
  "parse_number m =
     (let ip = takeWhile (\<lambda>c. c \<noteq> CHR ''.'') m;
          rest = dropWhile (\<lambda>c. c \<noteq> CHR ''.'') m
      in case rest of
           [] \<Rightarrow> if digitpart ip then Some (real (digits_val ip)) else None
         | _ # fp \<Rightarrow>
             if fp = [] then (if digitpart ip then Some (real (digits_val ip)) else None)
             else if digitpart fp \<and> (ip = [] \<or> digitpart ip)
             then Some (real (digits_val ip)
                        + real (digits_val fp) / 10 ^ length (filter is_digit fp))
             else None)"

definition parse_exponent :: "string \<Rightarrow> int option" where
  "parse_exponent x =
     (case strip_sign x of (neg, d) \<Rightarrow>
        if digitpart d then Some (if neg then - int (digits_val d) else int (digits_val d))
        else None)"

definition scale10 :: "real \<Rightarrow> int \<Rightarrow> real" where
  "scale10 v e = (if 0 \<le> e then v * 10 ^ nat e else v / 10 ^ nat (- e))"

definition parse_floatnumber :: "string \<Rightarrow> real option" where
  "parse_floatnumber s =
     (let m = takeWhile (\<lambda>c. c \<noteq> CHR ''e'' \<and> c \<noteq> CHR ''E'') s;
          rest = dropWhile (\<lambda>c. c \<noteq> CHR ''e'' \<and> c \<noteq> CHR ''E'') s
      in case rest of
           [] \<Rightarrow> parse_number m
         | _ # x \<Rightarrow>
             (case parse_number m of None \<Rightarrow> None
              | Some v \<Rightarrow> (case parse_exponent x of None \<Rightarrow> None
                          | Some e \<Rightarrow> Some (scale10 v e))))"

datatype pyfloat = Finite real | PosInf | NegInf | NaN

text \<open>\<open>float(s)\<close>: \<open>None\<close> stands for the \<open>ValueError\<close> that the callers catch.\<close>

definition py_float :: "string \<Rightarrow> pyfloat option" where
  "py_float s =
     (case strip_sign (py_strip s) of (neg, a) \<Rightarrow>
        if py_lower a = ''inf'' \<or> py_lower a = ''infinity''
        then Some (if neg then NegInf else PosInf)
        else if py_lower a = ''nan'' then Some NaN
        else (case parse_floatnumber a of None \<Rightarrow> None
              | Some v \<Rightarrow> Some (Finite (if neg then - v else v))))"

text \<open>\<open>int(s)\<close> in base 10: \<open>None\<close> stands for \<open>ValueError\<close>.\<close>

definition py_int :: "string \<Rightarrow> int option" where
  "py_int s =
     (case strip_sign (py_strip s) of (neg, d) \<Rightarrow>
        if digitpart d then Some (if neg then - int (digits_val d) else int (digits_val d))
        else None)"

section \<open>Cleaning one cell\<close>

text \<open>
  A raw cell is \<open>None\<close> when \<open>pd.isna(value)\<close> holds and \<open>Some s\<close> for the string \<open>s\<close>.
  \<open>re.sub(r'[a-zA-Z :]+', '', s)\<close> deletes every letter, blank and colon of \<open>s\<close>.
\<close>

definition missing_tokens :: "string list" where
  "missing_tokens = ['''', '':'', '': m'', '': c'', '': z'']"

definition strip_flags :: "string \<Rightarrow> string" where
  "strip_flags s = filter (\<lambda>c. \<not> (is_letter c \<or> c = CHR '' '' \<or> c = CHR '':'')) s"

definition clean_value :: "string option \<Rightarrow> pyfloat option" where
  "clean_value v =
     (case v of None \<Rightarrow> None
      | Some s \<Rightarrow>
          let value_str = py_strip s in
          if value_str \<in> set missing_tokens then None
          else let cleaned = strip_flags value_str in
               if cleaned = [] then None else py_float cleaned)"

text \<open>\<open>re.findall(r'[a-z]', s)\<close>: every lower-case letter, in order, as a one-letter string.\<close>

definition extract_flags :: "string option \<Rightarrow> string list" where
  "extract_flags v =
     (case v of None \<Rightarrow> []
      | Some s \<Rightarrow> map (\<lambda>c. [c]) (filter is_lower (py_strip s)))"

text \<open>
  \<open>clean_eurostat_value\<close> of \<open>analyze_eurostat.py\<close>: any colon makes the cell unavailable,
  and only lower-case letters, blanks and colons are deleted before \<open>float\<close>.
\<close>

definition clean_eurostat_value :: "string option \<Rightarrow> pyfloat option" where
  "clean_eurostat_value v =
     (case v of None \<Rightarrow> None
      | Some s \<Rightarrow>
          if py_strip s = [] \<or> CHR '':'' \<in> set s then None
          else py_float (filter (\<lambda>c. \<not> (is_lower c \<or> c = CHR '' '' \<or> c = CHR '':''))
                           (py_strip s)))"

section \<open>The cleaner and its tables\<close>

datatype py_error = ValueError | TypeError | AttributeError | IndexError | KeyError
  | OverflowError

text \<open>The four dimensions of a composite key, as the dictionaries of the source name them.\<close>

record dims =
  freq :: string
  unit :: string
  tra_mode :: string
  geo :: string

record meta_row = dims +
  row_idx :: nat

text \<open>
  The frame read from the CSV file: its column names, and for every row the cell of the
  metadata column (\<open>None\<close> when it is NaN) with the cells of the other columns.
\<close>

record raw_frame =
  columns :: "string list"
  raw_rows :: "(string option \<times> string option list) list"

text \<open>
  A row of \<open>cleaned_df\<close>: the parsed metadata and one cell per year column, \<open>None\<close> being NaN.
  A row of \<open>long_df\<close>: the dimensions, the year and the value.
\<close>

record cleaned_row = meta_row +
  cells :: "real option list"

record long_row = dims +
  year :: int
  val :: real

record cleaner =
  csv_path :: string
  df :: "raw_frame option"
  metadata_col :: "string option"
  year_cols :: "string list option"
  cleaned_df :: "cleaned_row list option"
  long_df :: "long_row list option"

definition init :: "string \<Rightarrow> cleaner" where
  "init p = \<lparr>csv_path = p, df = None, metadata_col = None, year_cols = None,
     cleaned_df = None, long_df = None\<rparr>"

text \<open>
  \<open>load_data\<close>, given the frame that \<open>pd.read_csv\<close> returns. The first column is the metadata
  column; the names of the others are stripped. The message printed at the end reads
  \<open>year_cols[0]\<close>, which raises when there is no year column, after the fields are set.
\<close>

definition load_data :: "raw_frame \<Rightarrow> cleaner \<Rightarrow> (py_error + unit) \<times> cleaner" where
  "load_data f st =
     (case columns f of
        [] \<Rightarrow> (Inl IndexError, st\<lparr>df := Some f\<rparr>)
      | c # cs \<Rightarrow>
          let st' = st\<lparr>df := Some f, metadata_col := Some c, year_cols := Some (map py_strip cs)\<rparr>
          in if cs = [] then (Inl IndexError, st') else (Inr (), st'))"

section \<open>Decomposing the composite key\<close>

text \<open>
  The loop of \<open>parse_metadata\<close> over \<open>df.iterrows()\<close>: \<open>idx\<close> is the index of the row and
  \<open>parsed\<close> the list built so far. A NaN key has no \<open>split\<close> and raises \<open>AttributeError\<close>.
  Without a frame there is nothing to iterate over, and without the name of the metadata
  column the first row has no such entry.
\<close>

fun parse_loop :: "nat \<Rightarrow> (string option \<times> string option list) list \<Rightarrow> meta_row list
    \<Rightarrow> py_error + meta_row list" where
  "parse_loop idx [] parsed = Inr parsed"
| "parse_loop idx ((k, cs) # rest) parsed =
     (case k of None \<Rightarrow> Inl AttributeError
      | Some meta_str \<Rightarrow>
          let parts = split_on CHR '','' meta_str in
          if length parts \<ge> 4
          then parse_loop (Suc idx) rest
                 (parsed @ [\<lparr>freq = py_strip (parts ! 0), unit = py_strip (parts ! 1),
                              tra_mode = py_strip (parts ! 2), geo = py_strip (parts ! 3),
                              row_idx = idx\<rparr>])
          else parse_loop (Suc idx) rest parsed)"

definition parse_metadata :: "cleaner \<Rightarrow> (py_error + meta_row list) \<times> cleaner" where
  "parse_metadata st =
     (case df st of None \<Rightarrow> (Inl AttributeError, st)
      | Some f \<Rightarrow>
          (case metadata_col st of
             None \<Rightarrow> if raw_rows f = [] then (Inr [], st) else (Inl KeyError, st)
           | Some c \<Rightarrow> (parse_loop 0 (raw_rows f) [], st)))"

text \<open>\<open>parse_eurostat_header\<close> of \<open>analyze_eurostat.py\<close>; the sub-delimiter is the backslash.\<close>

definition backslash :: char where
  "backslash = CHR 0x5C"

definition parse_eurostat_header :: "string \<Rightarrow> dims option" where
  "parse_eurostat_header header_str =
     (let parts = split_on CHR '','' header_str in
      if length parts = 4
      then Some \<lparr>freq = parts ! 0, unit = parts ! 1, tra_mode = parts ! 2,
                 geo = (case split_on backslash (parts ! 3) of p # _ \<Rightarrow> p | [] \<Rightarrow> [])\<rparr>
      else None)"

section \<open>Filtering\<close>

text \<open>
  The methods of the class take the instance and return the outcome (\<open>Inl\<close> the exception
  raised) together with the instance as the call leaves it. \<open>filter_geo\<close> and \<open>filter_mode\<close>
  return \<open>self\<close>, which is the second component.
\<close>

definition filter_geo :: "string list \<Rightarrow> cleaner \<Rightarrow> (py_error + unit) \<times> cleaner" where
  "filter_geo countries st =
     (case cleaned_df st of None \<Rightarrow> (Inl ValueError, st)
      | Some rows \<Rightarrow>
          let countries_upper = map py_upper countries;
              kept = filter (\<lambda>r. py_upper (geo r) \<in> set countries_upper) rows
          in (Inr (), st\<lparr>cleaned_df := Some kept\<rparr>))"

definition filter_mode :: "string list \<Rightarrow> cleaner \<Rightarrow> (py_error + unit) \<times> cleaner" where
  "filter_mode modes st =
     (case cleaned_df st of None \<Rightarrow> (Inl ValueError, st)
      | Some rows \<Rightarrow>
          let modes_upper = map py_upper modes;
              kept = filter (\<lambda>r. py_upper (tra_mode r) \<in> set modes_upper) rows
          in (Inr (), st\<lparr>cleaned_df := Some kept\<rparr>))"

section \<open>Reshaping to the long format\<close>

text \<open>
  The cell of a row in the \<open>j\<close>-th year column. A frame is rectangular; a row whose list of
  cells is shorter than the list of year columns is read as padded with NaN.
\<close>

definition cell :: "cleaned_row \<Rightarrow> nat \<Rightarrow> real option" where
  "cell r j = (if j < length (cells r) then cells r ! j else None)"

definition dims_of :: "cleaned_row \<Rightarrow> dims" where
  "dims_of r = \<lparr>freq = freq r, unit = unit r, tra_mode = tra_mode r, geo = geo r\<rparr>"

text \<open>
  \<open>DataFrame.melt\<close> with the four identifier columns: one block per year column, in the
  order of \<open>value_vars\<close>, each block holding all rows in their order.
\<close>

definition melt :: "string list \<Rightarrow> cleaned_row list \<Rightarrow> (dims \<times> string \<times> real option) list" where
  "melt ycs rows =
     concat (map (\<lambda>j. map (\<lambda>r. (dims_of r, ycs ! j, cell r j)) rows) [0..<length ycs])"

text \<open>
  \<open>astype(int)\<close> on the column of year labels: \<open>int(label)\<close> for every element in turn, which
  raises \<open>ValueError\<close> on a label that is not an integer literal and \<open>OverflowError\<close> on one
  outside the 64-bit range.
\<close>

definition astype_int :: "string \<Rightarrow> py_error + int" where
  "astype_int s =
     (case py_int s of None \<Rightarrow> Inl ValueError
      | Some n \<Rightarrow> if - (2 ^ 63) \<le> n \<and> n < 2 ^ 63 then Inr n else Inl OverflowError)"

fun convert_years :: "(dims \<times> string \<times> real option) list
    \<Rightarrow> py_error + (dims \<times> int \<times> real option) list" where
  "convert_years [] = Inr []"
| "convert_years ((d, y, v) # rest) =
     (case astype_int y of Inl e \<Rightarrow> Inl e
      | Inr n \<Rightarrow> (case convert_years rest of Inl e \<Rightarrow> Inl e
                  | Inr out \<Rightarrow> Inr ((d, n, v) # out)))"

text \<open>\<open>dropna(subset=['value'])\<close>, building the rows of the long frame.\<close>

fun dropna :: "(dims \<times> int \<times> real option) list \<Rightarrow> long_row list" where
  "dropna [] = []"
| "dropna ((d, n, None) # rest) = dropna rest"
| "dropna ((d, n, Some x) # rest) =
     \<lparr>freq = freq d, unit = unit d, tra_mode = tra_mode d, geo = geo d, year = n, val = x\<rparr>
       # dropna rest"

text \<open>
  \<open>sort_values(['geo', 'tra_mode', 'year'])\<close>: a stable sort on the triple, strings compared
  character by character and triples lexicographically.
\<close>

definition sort_key3 :: "long_row \<Rightarrow> string \<times> string \<times> int" where
  "sort_key3 r = (geo r, tra_mode r, year r)"

definition sort_values :: "long_row list \<Rightarrow> long_row list" where
  "sort_values rs = sort_key sort_key3 rs"

text \<open>
  When \<open>year_cols\<close> is still \<open>None\<close>, \<open>melt\<close> takes every other column as a value column,
  \<open>row_idx\<close> first; its name is no integer literal, so the conversion raises as soon as the
  frame has a row.
\<close>

definition to_long_format :: "cleaner \<Rightarrow> (py_error + long_row list) \<times> cleaner" where
  "to_long_format st =
     (case cleaned_df st of None \<Rightarrow> (Inl ValueError, st)
      | Some rows \<Rightarrow>
          (case year_cols st of
             None \<Rightarrow> if rows = [] then (Inr [], st\<lparr>long_df := Some []\<rparr>) else (Inl ValueError, st)
           | Some ycs \<Rightarrow>
               (case convert_years (melt ycs rows) of Inl e \<Rightarrow> (Inl e, st)
                | Inr m \<Rightarrow>
                    let long = sort_values (dropna m)
                    in (Inr long, st\<lparr>long_df := Some long\<rparr>))))"

section \<open>Statistics\<close>

text \<open>
  The sums, quotients and square roots below are those of the real numbers. The code computes
  them in binary64, in an order of summation that is numpy's own, so a mean, a standard
  deviation or the midpoint of two values may differ from the number given here in the last
  digits (the mean of \<open>2^53\<close> and 1 is \<open>2^52\<close> in the code and \<open>2^52 + 1/2\<close> here). Counts, minima,
  maxima and the median of an odd number of values involve no arithmetic and are the same.
\<close>

text \<open>The values that are not NaN.\<close>

definition notna :: "real option list \<Rightarrow> real list" where
  "notna xs = concat (map (\<lambda>x. case x of None \<Rightarrow> [] | Some v \<Rightarrow> [v]) xs)"

definition np_mean :: "real list \<Rightarrow> real" where
  "np_mean vs = sum_list vs / real (length vs)"

definition pd_median :: "real list \<Rightarrow> real" where
  "pd_median vs =
     (let s = sort vs; n = length s
      in if odd n then s ! (n div 2) else (s ! (n div 2 - 1) + s ! (n div 2)) / 2)"

fun np_min :: "real list \<Rightarrow> real" where
  "np_min [] = 0"
| "np_min [x] = x"
| "np_min (x # xs) = min x (np_min xs)"

fun np_max :: "real list \<Rightarrow> real" where
  "np_max [] = 0"
| "np_max [x] = x"
| "np_max (x # xs) = max x (np_max xs)"

text \<open>
  \<open>Series.std()\<close> with its default \<open>ddof=1\<close>: the square root of the sum of squared
  deviations over \<open>n - 1\<close>, and NaN (\<open>None\<close>) for fewer than two values.
\<close>

definition sq_dev :: "real list \<Rightarrow> real" where
  "sq_dev vs = sum_list (map (\<lambda>x. (x - np_mean vs)\<^sup>2) vs)"

definition pd_std :: "real list \<Rightarrow> real option" where
  "pd_std vs = (if length vs \<le> 1 then None else Some (sqrt (sq_dev vs / real (length vs - 1))))"

text \<open>One record of \<open>country_stats\<close> or \<open>mode_stats\<close>: the group and its five statistics.\<close>

record group_stats =
  g_key :: string
  g_data_points :: nat
  g_mean :: real
  g_median :: real
  g_min :: real
  g_max :: real

definition row_values :: "string list \<Rightarrow> cleaned_row \<Rightarrow> real option list" where
  "row_values ycs r = map (cell r) [0..<length ycs]"

definition stats_by :: "(cleaned_row \<Rightarrow> string) \<Rightarrow> string list \<Rightarrow> cleaned_row list
    \<Rightarrow> group_stats list" where
  "stats_by col ycs rows =
     concat (map (\<lambda>g.
        let data = filter (\<lambda>r. col r = g) rows;
            vs = notna (concat (map (row_values ycs) data))
        in if length vs > 0
           then [\<lparr>g_key = g, g_data_points = length vs, g_mean = np_mean vs,
                   g_median = pd_median vs, g_min = np_min vs, g_max = np_max vs\<rparr>]
           else [])
       (sort (remdups (map col rows))))"

text \<open>
  \<open>summary_stats\<close> returns the frame of the statistics by country and prints the one by
  transport mode; the model gives both, in this order.
\<close>

definition summary_stats :: "cleaner
    \<Rightarrow> (py_error + group_stats list \<times> group_stats list) \<times> cleaner" where
  "summary_stats st =
     (case cleaned_df st of None \<Rightarrow> (Inl ValueError, st)
      | Some rows \<Rightarrow>
          (case year_cols st of None \<Rightarrow> (Inl TypeError, st)
           | Some ycs \<Rightarrow> (Inr (stats_by geo ycs rows, stats_by tra_mode ycs rows), st)))"

text \<open>One printed line of the year-over-year table, and the overall trend.\<close>

record year_stats =
  y_label :: string
  y_count :: nat
  y_mean :: real
  y_median :: real
  y_std :: "real option"

record trend =
  first_year :: string
  last_year :: string
  first_mean :: real
  last_mean :: real
  change :: real
  pct_change :: pyfloat

record trend_report =
  year_lines :: "year_stats list"
  overall :: "trend option"

definition column :: "cleaned_row list \<Rightarrow> nat \<Rightarrow> real list" where
  "column rows j = notna (map (\<lambda>r. cell r j) rows)"

text \<open>\<open>Series.mean()\<close> skips NaN and is NaN when nothing is left.\<close>

definition pd_mean :: "real list \<Rightarrow> real option" where
  "pd_mean vs = (if vs = [] then None else Some (np_mean vs))"

text \<open>Division and multiplication of \<open>numpy.float64\<close>: dividing by zero gives an infinity or NaN.\<close>

definition np_div :: "real \<Rightarrow> real \<Rightarrow> pyfloat" where
  "np_div a b =
     (if b = 0 then (if a > 0 then PosInf else if a < 0 then NegInf else NaN)
      else Finite (a / b))"

fun np_times :: "pyfloat \<Rightarrow> real \<Rightarrow> pyfloat" where
  "np_times (Finite x) k = Finite (x * k)"
| "np_times PosInf k = (if k > 0 then PosInf else if k < 0 then NegInf else NaN)"
| "np_times NegInf k = (if k > 0 then NegInf else if k < 0 then PosInf else NaN)"
| "np_times NaN k = NaN"

definition year_line :: "cleaned_row list \<Rightarrow> nat \<times> string \<Rightarrow> year_stats list" where
  "year_line rows jy =
     (case jy of (j, y) \<Rightarrow>
        let vs = column rows j
        in if length vs > 0
           then [\<lparr>y_label = y, y_count = length vs, y_mean = np_mean vs,
                   y_median = pd_median vs, y_std = pd_std vs\<rparr>]
           else [])"

definition overall_trend :: "string list \<Rightarrow> cleaned_row list \<Rightarrow> trend option" where
  "overall_trend ycs rows =
     (case (pd_mean (column rows 0), pd_mean (column rows (length ycs - 1))) of
        (Some fm, Some lm) \<Rightarrow>
          let ch = lm - fm;
              pct = np_times (np_div ch fm) 100
          in Some \<lparr>first_year = ycs ! 0, last_year = ycs ! (length ycs - 1),
                    first_mean = fm, last_mean = lm, change = ch, pct_change = pct\<rparr>
      | _ \<Rightarrow> None)"

definition analyze_trends :: "cleaner \<Rightarrow> (py_error + trend_report) \<times> cleaner" where
  "analyze_trends st =
     (case cleaned_df st of None \<Rightarrow> (Inl ValueError, st)
      | Some rows \<Rightarrow>
          (case year_cols st of None \<Rightarrow> (Inl TypeError, st)
           | Some ycs \<Rightarrow>
               if ycs = [] then (Inl IndexError, st)
               else (Inr \<lparr>year_lines = concat (map (year_line rows) (enumerate 0 ycs)),
                           overall = overall_trend ycs rows\<rparr>, st)))"

section \<open>The string form of a float\<close>

text \<open>
  \<open>clean_value\<close> takes \<open>str(value)\<close>, and for a float that is its \<open>repr\<close>: the shortest decimal
  that reads back as the same binary64 number, written with an exponent when the decimal
  point would stand after more than 16 digits. The model gives it where rounding plays no
  part: for infinities and NaN, for an integer of magnitude at most \<open>2^53\<close> (written with
  \<open>.0\<close>), and for the powers of ten from \<open>10^16\<close> to \<open>10^22\<close> (written \<open>1e+16\<close> to \<open>1e+22\<close>).
  \<open>None\<close> marks a value outside this range, for which the model says nothing.
\<close>

definition digit_char :: "nat \<Rightarrow> char" where
  "digit_char d = ''0123456789'' ! (d mod 10)"

fun nat_str :: "nat \<Rightarrow> string" where
  "nat_str n = (if n < 10 then [digit_char n] else nat_str (n div 10) @ [digit_char (n mod 10)])"

definition py_str_float :: "pyfloat \<Rightarrow> string option" where
  "py_str_float f =
     (case f of NaN \<Rightarrow> Some ''nan'' | PosInf \<Rightarrow> Some ''inf'' | NegInf \<Rightarrow> Some ''-inf''
      | Finite v \<Rightarrow>
          let n = nat \<lfloor>\<bar>v\<bar>\<rfloor>; sign = (if v < 0 then ''-'' else [])
          in if \<bar>v\<bar> = real n \<and> n \<le> 2 ^ 53 then Some (sign @ nat_str n @ ''.0'')
             else (case find (\<lambda>k. \<bar>v\<bar> = 10 ^ k) [16..<23] of
                     Some k \<Rightarrow> Some (sign @ ''1e+'' @ nat_str k)
                   | None \<Rightarrow> None))"

section \<open>Notions used to state the properties\<close>



text \<open>The year that a column label converts to (used only for labels that do convert).\<close>

definition year_of :: "string \<Rightarrow> int" where
  "year_of y = (case astype_int y of Inl e \<Rightarrow> 0 | Inr n \<Rightarrow> n)"

text \<open>The number of cells of the year columns that are not NaN.\<close>

definition non_missing :: "string list \<Rightarrow> cleaned_row list \<Rightarrow> nat" where
  "non_missing ycs rows = sum_list (map (\<lambda>r. length (notna (row_values ycs r))) rows)"

definition long_dims :: "long_row \<Rightarrow> dims" where
  "long_dims l = \<lparr>freq = freq l, unit = unit l, tra_mode = tra_mode l, geo = geo l\<rparr>"

text \<open>
  Grouping the long rows back: the values of the long rows with dimensions \<open>d\<close> and year \<open>n\<close>,
  and the values of the cleaned cells that lie in a row with dimensions \<open>d\<close> and in a column
  whose label converts to \<open>n\<close>.
\<close>

definition regroup :: "long_row list \<Rightarrow> dims \<Rightarrow> int \<Rightarrow> real list" where
  "regroup long d n = map val (filter (\<lambda>l. long_dims l = d \<and> year l = n) long)"

definition cells_at :: "string list \<Rightarrow> cleaned_row list \<Rightarrow> dims \<Rightarrow> int \<Rightarrow> real list" where
  "cells_at ycs rows d n =
     concat (map (\<lambda>r. if dims_of r = d
                        then notna (map (cell r)
                               (filter (\<lambda>j. year_of (ycs ! j) = n) [0..<length ycs]))
                        else []) rows)"

text \<open>The long rows written without the error cases, for tables whose labels all convert.\<close>

definition conv :: "dims \<times> string \<times> real option \<Rightarrow> dims \<times> int \<times> real option" where
  "conv x = (case x of (d, y, v) \<Rightarrow> (d, year_of y, v))"

definition drop1 :: "dims \<times> int \<times> real option \<Rightarrow> long_row list" where
  "drop1 x = (case x of (d, n, v) \<Rightarrow> (case v of None \<Rightarrow> []
     | Some a \<Rightarrow> [\<lparr>freq = freq d, unit = unit d, tra_mode = tra_mode d, geo = geo d,
                    year = n, val = a\<rparr>]))"

definition long_of :: "string list \<Rightarrow> cleaned_row list \<Rightarrow> long_row list" where
  "long_of ycs rows = concat (map (drop1 \<circ> conv) (melt ycs rows))"

definition long_of_row :: "string list \<Rightarrow> cleaned_row \<Rightarrow> nat list \<Rightarrow> long_row list" where
  "long_of_row ycs r js = concat (map (\<lambda>j. drop1 (conv (dims_of r, ycs ! j, cell r j))) js)"

text \<open>
  What it means for a reported number to be the sample standard deviation (divisor
  \<open>n - 1\<close>, undefined below two values), the population standard deviation (divisor \<open>n\<close>), the
  median, and for a record to hold the five statistics of a list of values. A value \<open>x\<close> is
  at rank \<open>i\<close> of a list when at most \<open>i\<close> of its values are below \<open>x\<close> and more than \<open>i\<close> are at
  most \<open>x\<close>: it is the value at index \<open>i\<close> once the list is put in order. The median is the
  midpoint of the values at ranks \<open>(n - 1) div 2\<close> and \<open>n div 2\<close>, which coincide for an odd \<open>n\<close>.
\<close>

definition is_sample_std :: "real list \<Rightarrow> real option \<Rightarrow> bool" where
  "is_sample_std vs s =
     (case s of None \<Rightarrow> length vs \<le> 1
      | Some x \<Rightarrow> 2 \<le> length vs \<and> 0 \<le> x
          \<and> x\<^sup>2 * real (length vs - 1) = (\<Sum>v\<leftarrow>vs. (v - sum_list vs / real (length vs))\<^sup>2))"

definition is_population_std :: "real list \<Rightarrow> real option \<Rightarrow> bool" where
  "is_population_std vs s =
     (case s of None \<Rightarrow> vs = []
      | Some x \<Rightarrow> vs \<noteq> [] \<and> 0 \<le> x
          \<and> x\<^sup>2 * real (length vs) = (\<Sum>v\<leftarrow>vs. (v - sum_list vs / real (length vs))\<^sup>2))"

definition at_rank :: "real list \<Rightarrow> nat \<Rightarrow> real \<Rightarrow> bool" where
  "at_rank vs i x \<longleftrightarrow> length (filter (\<lambda>v. v < x) vs) \<le> i \<and> i < length (filter (\<lambda>v. v \<le> x) vs)"

definition is_median :: "real list \<Rightarrow> real \<Rightarrow> bool" where
  "is_median vs m \<longleftrightarrow>
     (\<exists>lo\<in>set vs. \<exists>hi\<in>set vs. at_rank vs ((length vs - 1) div 2) lo
        \<and> at_rank vs (length vs div 2) hi \<and> m = (lo + hi) / 2)"

definition five_stats :: "real list \<Rightarrow> group_stats \<Rightarrow> bool" where
  "five_stats vs g \<longleftrightarrow> g_data_points g = length vs
     \<and> g_mean g * real (length vs) = sum_list vs
     \<and> is_median vs (g_median g)
     \<and> g_min g \<in> set vs \<and> (\<forall>v\<in>set vs. g_min g \<le> v)
     \<and> g_max g \<in> set vs \<and> (\<forall>v\<in>set vs. v \<le> g_max g)"

definition group_values :: "(cleaned_row \<Rightarrow> string) \<Rightarrow> string list \<Rightarrow> cleaned_row list \<Rightarrow> string
    \<Rightarrow> real list" where
  "group_values col ycs rows g =
     notna (concat (map (row_values ycs) (filter (\<lambda>r. col r = g) rows)))"

text \<open>
  The groups of a grouped aggregation that have a value, in sorted order, and the period
  columns that have a value, in the order of the table; what a line of the year-over-year
  table has to hold for a period \<open>y\<close> with the values \<open>vs\<close>.
\<close>

definition groups_with_values :: "(cleaned_row \<Rightarrow> string) \<Rightarrow> string list \<Rightarrow> cleaned_row list
    \<Rightarrow> string list" where
  "groups_with_values col ycs rows =
     filter (\<lambda>g. group_values col ycs rows g \<noteq> []) (sort (remdups (map col rows)))"

definition periods_with_values :: "string list \<Rightarrow> cleaned_row list \<Rightarrow> nat list" where
  "periods_with_values ycs rows = filter (\<lambda>j. column rows j \<noteq> []) [0..<length ycs]"

definition period_stats :: "real list \<Rightarrow> string \<Rightarrow> year_stats \<Rightarrow> bool" where
  "period_stats vs y l \<longleftrightarrow> y_label l = y \<and> y_count l = length vs
     \<and> y_mean l * real (length vs) = sum_list vs
     \<and> is_median vs (y_median l)
     \<and> is_sample_std vs (y_std l)"

section \<open>Example tables\<close>

text \<open>
  A raw frame whose only key carries a suffix after a backslash, one with a short key, and
  one with an empty key cell.
\<close>

definition suffixed_frame :: raw_frame where
  "suffixed_frame = \<lparr>columns = [''key'', ''2023''],
     raw_rows = [(Some (''A,B,C,GEO'' @ backslash # ''2023''), [Some ''1''])]\<rparr>"

definition short_key_frame :: raw_frame where
  "short_key_frame = \<lparr>columns = [''key'', ''2023''],
     raw_rows = [(Some ''A,B,C'', [Some ''1'']), (Some ''A, PC ,IWW,BE,x'', [Some ''2 e''])]\<rparr>"

definition nan_key_frame :: raw_frame where
  "nan_key_frame = \<lparr>columns = [''key'', ''2023''],
     raw_rows = [(Some ''A,PC,IWW,BE'', [Some ''1'']), (None, [Some ''2''])]\<rparr>"

definition loaded :: "raw_frame \<Rightarrow> cleaner" where
  "loaded f = snd (load_data f (init ''data.csv''))"

text \<open>A cleaned table of three countries and three years, and what the methods give on it.\<close>

definition example_rows :: "cleaned_row list" where
  "example_rows =
     [\<lparr>freq = ''A'', unit = ''PC'', tra_mode = ''IWW'', geo = ''BE'', row_idx = 0,
        cells = [Some 10, Some 10, None]\<rparr>,
      \<lparr>freq = ''A'', unit = ''PC'', tra_mode = ''RAIL'', geo = ''NL'', row_idx = 1,
        cells = [Some 12, None, Some 6]\<rparr>,
      \<lparr>freq = ''A'', unit = ''PC'', tra_mode = ''ROAD'', geo = ''DE'', row_idx = 2,
        cells = [Some 14, Some 10, Some 6]\<rparr>]"

definition example_years :: "string list" where
  "example_years = [''2020'', ''2021'', ''2022'']"

definition example_cleaner :: cleaner where
  "example_cleaner = (init ''samples/estat_tran_hv_frmod.csv'')
     \<lparr>year_cols := Some example_years, cleaned_df := Some example_rows\<rparr>"

definition example_long :: "long_row list" where
  "example_long =
     [\<lparr>freq = ''A'', unit = ''PC'', tra_mode = ''IWW'', geo = ''BE'', year = 2020, val = 10\<rparr>,
      \<lparr>freq = ''A'', unit = ''PC'', tra_mode = ''IWW'', geo = ''BE'', year = 2021, val = 10\<rparr>,
      \<lparr>freq = ''A'', unit = ''PC'', tra_mode = ''ROAD'', geo = ''DE'', year = 2020, val = 14\<rparr>,
      \<lparr>freq = ''A'', unit = ''PC'', tra_mode = ''ROAD'', geo = ''DE'', year = 2021, val = 10\<rparr>,
      \<lparr>freq = ''A'', unit = ''PC'', tra_mode = ''ROAD'', geo = ''DE'', year = 2022, val = 6\<rparr>,
      \<lparr>freq = ''A'', unit = ''PC'', tra_mode = ''RAIL'', geo = ''NL'', year = 2020, val = 12\<rparr>,
      \<lparr>freq = ''A'', unit = ''PC'', tra_mode = ''RAIL'', geo = ''NL'', year = 2022, val = 6\<rparr>]"

definition example_report :: trend_report where
  "example_report =
     \<lparr>year_lines =
        [\<lparr>y_label = ''2020'', y_count = 3, y_mean = 12, y_median = 12, y_std = Some 2\<rparr>,
         \<lparr>y_label = ''2021'', y_count = 2, y_mean = 10, y_median = 10, y_std = Some 0\<rparr>,
         \<lparr>y_label = ''2022'', y_count = 2, y_mean = 6, y_median = 6, y_std = Some 0\<rparr>],
      overall = Some \<lparr>first_year = ''2020'', last_year = ''2022'', first_mean = 12,
        last_mean = 6, change = - 6, pct_change = Finite (- 50)\<rparr>\<rparr>"

definition example_by_geo :: "group_stats list" where
  "example_by_geo =
     [\<lparr>g_key = ''BE'', g_data_points = 2, g_mean = 10, g_median = 10, g_min = 10, g_max = 10\<rparr>,
      \<lparr>g_key = ''DE'', g_data_points = 3, g_mean = 10, g_median = 10, g_min = 6, g_max = 14\<rparr>,
      \<lparr>g_key = ''NL'', g_data_points = 2, g_mean = 9, g_median = 9, g_min = 6, g_max = 12\<rparr>]"

definition example_by_mode :: "group_stats list" where
  "example_by_mode =
     [\<lparr>g_key = ''IWW'', g_data_points = 2, g_mean = 10, g_median = 10, g_min = 10, g_max = 10\<rparr>,
      \<lparr>g_key = ''RAIL'', g_data_points = 2, g_mean = 9, g_median = 9, g_min = 6, g_max = 12\<rparr>,
      \<lparr>g_key = ''ROAD'', g_data_points = 3, g_mean = 10, g_median = 10, g_min = 6, g_max = 14\<rparr>]"

text \<open>A cleaned table whose first year has mean zero.\<close>

definition zero_baseline_cleaner :: cleaner where
  "zero_baseline_cleaner = (init ''data.csv'')
     \<lparr>year_cols := Some [''2020'', ''2021''],
       cleaned_df := Some [\<lparr>freq = ''A'', unit = ''PC'', tra_mode = ''IWW'', geo = ''BE'',
         row_idx = 0, cells = [Some 0, Some 5]\<rparr>]\<rparr>"

section \<open>Cleaning one cell: properties\<close>

lemmas cell_defs = clean_value_def extract_flags_def py_strip_def is_space_def missing_tokens_def
  strip_flags_def is_letter_def is_lower_def is_upper_def py_float_def strip_sign_def py_lower_def
  lower_char_def parse_floatnumber_def parse_number_def is_digit_def digits_val_def digit_val_def

text \<open>The sibling function of \<open>analyze_eurostat.py\<close> rejects every cell that holds a colon.\<close>

lemma clean_eurostat_value_colon:
  "CHR '':'' \<in> set s \<Longrightarrow> clean_eurostat_value (Some s) = None"
  by (simp add: clean_eurostat_value_def)

text \<open>
  Claim C1: every raw cell that contains the marker \<open>:\<close> is cleaned to \<open>None\<close> by
  \<open>EurostatCleaner.clean_value\<close>. The cell \<open>12.5 :\<close> contains the marker, is none of the five
  tokens of the list of missing values, and is cleaned to the number \<open>12.5\<close>: the colon is
  deleted together with the letters and blanks.
\<close>

theorem clean_value_number_beside_colon:
  "CHR '':'' \<in> set ''12.5 :'' \<and> clean_value (Some ''12.5 :'') = Some (Finite 12.5)"
  by (simp add: cell_defs)

section \<open>Calls before \<open>clean_data\<close>\<close>

text \<open>
  Claim C10: on an instance whose \<open>cleaned_df\<close> is \<open>None\<close>, each of \<open>filter_geo\<close>, \<open>filter_mode\<close>,
  \<open>to_long_format\<close>, \<open>summary_stats\<close> and \<open>analyze_trends\<close> raises \<open>ValueError\<close> and leaves the
  instance as it was.
\<close>

theorem not_cleaned_raises:
  assumes "cleaned_df st = None"
  shows "filter_geo countries st = (Inl ValueError, st)
       \<and> filter_mode modes st = (Inl ValueError, st)
       \<and> to_long_format st = (Inl ValueError, st)
       \<and> summary_stats st = (Inl ValueError, st)
       \<and> analyze_trends st = (Inl ValueError, st)"
  using assms
  by (simp add: filter_geo_def filter_mode_def to_long_format_def summary_stats_def
      analyze_trends_def)

theorem not_cleaned_raises_witness:
  "cleaned_df (init ''data.csv'') = None
   \<and> filter_geo [''BE''] (init ''data.csv'') = (Inl ValueError, init ''data.csv'')
   \<and> filter_mode [''RAIL''] (init ''data.csv'') = (Inl ValueError, init ''data.csv'')
   \<and> to_long_format (init ''data.csv'') = (Inl ValueError, init ''data.csv'')
   \<and> summary_stats (init ''data.csv'') = (Inl ValueError, init ''data.csv'')
   \<and> analyze_trends (init ''data.csv'') = (Inl ValueError, init ''data.csv'')"
proof -
  have h: "cleaned_df (init ''data.csv'') = None" by (simp add: init_def)
  show ?thesis using h not_cleaned_raises [OF h] by simp
qed

section \<open>Filtering: properties\<close>

lemma count_list_filter:
  "count_list (filter P xs) r = (if P r then count_list xs r else 0)"
  by (induction xs) auto

lemma filter_geo_Some:
  "cleaned_df st = Some rows \<Longrightarrow>
   filter_geo allowed st =
     (Inr (), st\<lparr>cleaned_df :=
        Some (filter (\<lambda>r. py_upper (geo r) \<in> py_upper ` set allowed) rows)\<rparr>)"
  by (simp add: filter_geo_def)

lemma filter_mode_Some:
  "cleaned_df st = Some rows \<Longrightarrow>
   filter_mode allowed st =
     (Inr (), st\<lparr>cleaned_df :=
        Some (filter (\<lambda>r. py_upper (tra_mode r) \<in> py_upper ` set allowed) rows)\<rparr>)"
  by (simp add: filter_mode_def)

text \<open>
  Claim C7: filtering a cleaned table by a dimension (\<open>geo\<close> or \<open>tra_mode\<close>, the two the class
  offers) keeps a row if and only if its value in that dimension, upper-cased, is among the
  upper-cased allowed strings. The kept rows are a subsequence of the table in which every
  row with an allowed value occurs as often as before and no other row occurs; only
  \<open>cleaned_df\<close> changes. Filtering by the empty list leaves the empty table.
\<close>

theorem filter_retains_iff:
  assumes "cleaned_df st = Some rows"
  shows "(\<exists>kept. filter_geo allowed st = (Inr (), st\<lparr>cleaned_df := Some kept\<rparr>)
           \<and> subseq kept rows
           \<and> (\<forall>r. count_list kept r =
                 (if py_upper (geo r) \<in> py_upper ` set allowed then count_list rows r else 0)))
       \<and> (\<exists>kept. filter_mode allowed st = (Inr (), st\<lparr>cleaned_df := Some kept\<rparr>)
           \<and> subseq kept rows
           \<and> (\<forall>r. count_list kept r =
                 (if py_upper (tra_mode r) \<in> py_upper ` set allowed then count_list rows r
                  else 0)))
       \<and> filter_geo [] st = (Inr (), st\<lparr>cleaned_df := Some []\<rparr>)
       \<and> filter_mode [] st = (Inr (), st\<lparr>cleaned_df := Some []\<rparr>)"
proof (intro conjI)
  show "\<exists>kept. filter_geo allowed st = (Inr (), st\<lparr>cleaned_df := Some kept\<rparr>)
           \<and> subseq kept rows
           \<and> (\<forall>r. count_list kept r =
                 (if py_upper (geo r) \<in> py_upper ` set allowed then count_list rows r else 0))"
    using filter_geo_Some [OF assms, of allowed]
    by (intro exI [of _ "filter (\<lambda>r. py_upper (geo r) \<in> py_upper ` set allowed) rows"])
       (simp add: count_list_filter)
  show "\<exists>kept. filter_mode allowed st = (Inr (), st\<lparr>cleaned_df := Some kept\<rparr>)
           \<and> subseq kept rows
           \<and> (\<forall>r. count_list kept r =
                 (if py_upper (tra_mode r) \<in> py_upper ` set allowed then count_list rows r
                  else 0))"
    using filter_mode_Some [OF assms, of allowed]
    by (intro exI [of _ "filter (\<lambda>r. py_upper (tra_mode r) \<in> py_upper ` set allowed) rows"])
       (simp add: count_list_filter)
  show "filter_geo [] st = (Inr (), st\<lparr>cleaned_df := Some []\<rparr>)"
    using filter_geo_Some [OF assms, of "[]"] by simp
  show "filter_mode [] st = (Inr (), st\<lparr>cleaned_df := Some []\<rparr>)"
    using filter_mode_Some [OF assms, of "[]"] by simp
qed

lemma example_upper:
  "py_upper ''be'' = ''BE''" "py_upper ''nl'' = ''NL''" "py_upper ''BE'' = ''BE''"
  "py_upper ''NL'' = ''NL''" "py_upper ''DE'' = ''DE''" "py_upper ''rail'' = ''RAIL''"
  "py_upper ''IWW'' = ''IWW''" "py_upper ''RAIL'' = ''RAIL''" "py_upper ''ROAD'' = ''ROAD''"
  by (simp_all add: py_upper_def upper_char_def)

theorem filter_retains_iff_witness:
  "cleaned_df example_cleaner = Some example_rows
   \<and> filter_geo [''be'', ''nl''] example_cleaner =
       (Inr (), example_cleaner\<lparr>cleaned_df := Some (take 2 example_rows)\<rparr>)
   \<and> filter_mode [''rail''] example_cleaner =
       (Inr (), example_cleaner\<lparr>cleaned_df := Some [example_rows ! 1]\<rparr>)
   \<and> filter_geo [] example_cleaner = (Inr (), example_cleaner\<lparr>cleaned_df := Some []\<rparr>)"
proof -
  have h: "cleaned_df example_cleaner = Some example_rows"
    by (simp add: example_cleaner_def)
  have g: "filter_geo [''be'', ''nl''] example_cleaner =
       (Inr (), example_cleaner\<lparr>cleaned_df := Some (take 2 example_rows)\<rparr>)"
    by (simp add: filter_geo_def h example_rows_def example_upper)
  have m: "filter_mode [''rail''] example_cleaner =
       (Inr (), example_cleaner\<lparr>cleaned_df := Some [example_rows ! 1]\<rparr>)"
    by (simp add: filter_mode_def h example_rows_def example_upper)
  show ?thesis using h g m filter_retains_iff [OF h, of "[''be'', ''nl'']"] by simp
qed

section \<open>Decomposing the composite key: properties\<close>

lemma split_on_not_Nil [simp]: "split_on d s \<noteq> []"
  by (induction s) (auto split: list.splits)

lemma split_on_no_sep: "d \<notin> set a \<Longrightarrow> split_on d a = [a]"
  by (induction a) auto

lemma split_on_append: "d \<notin> set a \<Longrightarrow> split_on d (a @ d # rest) = a # split_on d rest"
  by (induction a) auto

lemma first_of_split:
  "(case split_on d s of [] \<Rightarrow> [] | p # _ \<Rightarrow> p) = takeWhile (\<lambda>c. c \<noteq> d) s"
  by (induction s) (auto split: list.splits)

lemma split_four:
  assumes "CHR '','' \<notin> set a" "CHR '','' \<notin> set b" "CHR '','' \<notin> set c" "CHR '','' \<notin> set d"
  shows "split_on CHR '','' (a @ CHR '','' # b @ CHR '','' # c @ CHR '','' # d) = [a, b, c, d]"
  using assms by (simp add: split_on_append split_on_no_sep)

lemma loaded_fields:
  "df (loaded suffixed_frame) = Some suffixed_frame"
  "df (loaded short_key_frame) = Some short_key_frame"
  "metadata_col (loaded suffixed_frame) = Some ''key''"
  "metadata_col (loaded short_key_frame) = Some ''key''"
  by (simp_all add: loaded_def load_data_def init_def suffixed_frame_def short_key_frame_def)

text \<open>
  Claim C2, as the code has it: on a key of exactly four comma-separated fields whose fourth
  field is a geography followed by a backslash and a suffix, \<open>parse_eurostat_header\<close> keeps
  the part of the fourth field before the first backslash, while \<open>parse_metadata\<close> keeps the
  whole fourth field, stripped of surrounding white space.
\<close>

theorem header_drops_suffix:
  assumes "CHR '','' \<notin> set a \<union> set b \<union> set c \<union> set g \<union> set sfx"
    and "backslash \<notin> set g"
    and "df st = Some f" and "metadata_col st = Some m"
    and "raw_rows f = [(Some (a @ CHR '','' # b @ CHR '','' # c @ CHR '','' # g @ backslash # sfx), cs)]"
  shows "parse_eurostat_header (a @ CHR '','' # b @ CHR '','' # c @ CHR '','' # g @ backslash # sfx)
           = Some \<lparr>freq = a, unit = b, tra_mode = c, geo = g\<rparr>
       \<and> parse_metadata st
           = (Inr [\<lparr>freq = py_strip a, unit = py_strip b, tra_mode = py_strip c,
                    geo = py_strip (g @ backslash # sfx), row_idx = 0\<rparr>], st)"
proof -
  let ?d = "g @ backslash # sfx"
  have bs: "backslash \<noteq> CHR '',''" by (simp add: backslash_def)
  with assms(1) have d: "CHR '','' \<notin> set ?d" by simp
  from assms(1) have abc: "CHR '','' \<notin> set a" "CHR '','' \<notin> set b" "CHR '','' \<notin> set c"
    by simp_all
  have sp: "split_on CHR '','' (a @ CHR '','' # b @ CHR '','' # c @ CHR '','' # ?d) = [a, b, c, ?d]"
    by (rule split_four [OF abc d])
  have g: "(case split_on backslash ?d of [] \<Rightarrow> [] | p # _ \<Rightarrow> p) = g"
    using assms(2) by (auto simp: first_of_split takeWhile_tail takeWhile_eq_all_conv)
  have header: "parse_eurostat_header (a @ CHR '','' # b @ CHR '','' # c @ CHR '','' # ?d)
      = Some \<lparr>freq = a, unit = b, tra_mode = c, geo = g\<rparr>"
    using g by (simp add: parse_eurostat_header_def sp Let_def)
  have rows: "parse_metadata st
      = (Inr [\<lparr>freq = py_strip a, unit = py_strip b, tra_mode = py_strip c,
               geo = py_strip ?d, row_idx = 0\<rparr>], st)"
    by (simp add: parse_metadata_def assms(3,4,5) sp Let_def)
  from header rows show ?thesis by simp
qed

theorem header_drops_suffix_witness:
  "CHR '','' \<notin> set ''A'' \<union> set ''B'' \<union> set ''C'' \<union> set ''GEO'' \<union> set ''2023''
   \<and> backslash \<notin> set ''GEO''
   \<and> df (loaded suffixed_frame) = Some suffixed_frame
   \<and> metadata_col (loaded suffixed_frame) = Some ''key''
   \<and> raw_rows suffixed_frame = [(Some (''A,B,C,GEO'' @ backslash # ''2023''), [Some ''1''])]
   \<and> parse_eurostat_header (''A,B,C,GEO'' @ backslash # ''2023'')
       = Some \<lparr>freq = ''A'', unit = ''B'', tra_mode = ''C'', geo = ''GEO''\<rparr>"
proof -
  have h1: "CHR '','' \<notin> set ''A'' \<union> set ''B'' \<union> set ''C'' \<union> set ''GEO'' \<union> set ''2023''"
    by simp
  have h2: "backslash \<notin> set ''GEO''" unfolding backslash_def by simp
  have h3: "df (loaded suffixed_frame) = Some suffixed_frame" by (rule loaded_fields(1))
  have h3': "metadata_col (loaded suffixed_frame) = Some ''key''" by (rule loaded_fields(3))
  have h4: "raw_rows suffixed_frame
      = [(Some (''A'' @ CHR '','' # ''B'' @ CHR '','' # ''C'' @ CHR '','' # ''GEO'' @ backslash # ''2023''),
          [Some ''1''])]"
    by (simp add: suffixed_frame_def)
  show ?thesis using h1 h2 h3 h3' h4 header_drops_suffix [OF h1 h2 h3 h3' h4] by simp
qed

text \<open>
  Claim C2, as stated, fails: \<open>parse_metadata\<close> on the key \<open>A,B,C,GEO\2023\<close> gives the geography
  \<open>GEO\2023\<close>, not \<open>GEO\<close>; and \<open>parse_eurostat_header\<close> gives nothing for a key of five fields
  whose fourth field carries a suffix.
\<close>

theorem parse_metadata_keeps_suffix:
  "parse_metadata (loaded suffixed_frame) =
     (Inr [\<lparr>freq = ''A'', unit = ''B'', tra_mode = ''C'', geo = ''GEO'' @ backslash # ''2023'',
            row_idx = 0\<rparr>], loaded suffixed_frame)
   \<and> ''GEO'' @ backslash # ''2023'' \<noteq> ''GEO''
   \<and> parse_eurostat_header (''A,B,C,GEO'' @ backslash # ''2023,X'') = None"
  by (simp add: parse_metadata_def loaded_def load_data_def init_def suffixed_frame_def
      py_strip_def is_space_def backslash_def parse_eurostat_header_def)





text \<open>
  A row whose key cell is empty is another matter: NaN has no \<open>split\<close>, and the loop stops
  there with \<open>AttributeError\<close>, also when the rows before it were good.
\<close>

lemma parse_metadata_empty_key:
  "parse_metadata (loaded nan_key_frame) = (Inl AttributeError, loaded nan_key_frame)"
  by (simp add: parse_metadata_def loaded_def load_data_def init_def nan_key_frame_def)

section \<open>Reshaping to the long format: properties\<close>

lemma sort_values_sorted: "sorted (map sort_key3 (sort_values rs))"
  by (simp add: sort_values_def sorted_sort_key)

lemma to_long_format_result:
  assumes "to_long_format st = (Inr long, st')"
  shows "\<exists>xs. long = sort_values xs"
  using assms
  by (auto simp: to_long_format_def sort_values_def Let_def
      split: option.splits sum.splits if_splits intro: exI [of _ "[]"])

lemma example_to_long:
  "to_long_format example_cleaner
     = (Inr example_long, example_cleaner\<lparr>long_df := Some example_long\<rparr>)"
  by code_simp

text \<open>
  Claim C9: the long table that \<open>to_long_format\<close> returns is sorted by geography, then by
  transport mode, then by year, ascending: of two rows, the earlier one has the smaller
  geography, or the same geography and the smaller transport mode, or the same of both and
  a year that is not greater.
\<close>

theorem long_format_sorted:
  assumes "to_long_format st = (Inr long, st')" and "i < j" and "j < length long"
  shows "geo (long ! i) < geo (long ! j)
       \<or> (geo (long ! i) = geo (long ! j)
          \<and> (tra_mode (long ! i) < tra_mode (long ! j)
             \<or> (tra_mode (long ! i) = tra_mode (long ! j) \<and> year (long ! i) \<le> year (long ! j))))"
proof -
  from to_long_format_result [OF assms(1)] obtain xs where "long = sort_values xs" ..
  then have "sorted (map sort_key3 long)" by (simp add: sort_values_sorted)
  with assms(2,3) have "sort_key3 (long ! i) \<le> sort_key3 (long ! j)"
    by (auto simp: sorted_iff_nth_mono_less)
  then show ?thesis
    by (auto simp: sort_key3_def less_eq_prod_def)
qed

theorem long_format_sorted_witness:
  "to_long_format example_cleaner
     = (Inr example_long, example_cleaner\<lparr>long_df := Some example_long\<rparr>)
   \<and> (1::nat) < 2 \<and> 2 < length example_long
   \<and> geo (example_long ! 1) = ''BE'' \<and> geo (example_long ! 2) = ''DE''
   \<and> geo (example_long ! 1) < geo (example_long ! 2)"
proof -
  have h2: "(1::nat) < 2" by simp
  have h3: "2 < length example_long" by (simp add: example_long_def)
  have g: "geo (example_long ! 1) = ''BE''" "geo (example_long ! 2) = ''DE''"
    by (simp_all add: example_long_def)
  from long_format_sorted [OF example_to_long h2 h3] g
  have "geo (example_long ! 1) < geo (example_long ! 2)" by auto
  with example_to_long h2 h3 g show ?thesis by simp
qed

lemma convert_years_total:
  assumes "\<forall>x\<in>set xs. \<exists>n. astype_int (fst (snd x)) = Inr n"
  shows "convert_years xs = Inr (map conv xs)"
  using assms
  by (induction xs rule: convert_years.induct) (auto simp: conv_def year_of_def)

lemma melt_labels: "x \<in> set (melt ycs rows) \<Longrightarrow> fst (snd x) \<in> set ycs"
  by (auto simp: melt_def)

lemma dropna_concat: "dropna xs = concat (map drop1 xs)"
  by (induction xs rule: dropna.induct) (simp_all add: drop1_def)

lemma mset_concat_map_Cons:
  "mset (concat (map (\<lambda>j. map (g j) (r # rows)) js))
     = mset (map (\<lambda>j. g j r) js) + mset (concat (map (\<lambda>j. map (g j) rows) js))"
  by (induction js) simp_all

lemma mset_melt_Cons:
  "mset (melt ycs (r # rows))
     = mset (map (\<lambda>j. (dims_of r, ycs ! j, cell r j)) [0..<length ycs]) + mset (melt ycs rows)"
  unfolding melt_def by (rule mset_concat_map_Cons)

lemma mset_concat_map: "mset (concat (map k xs)) = (\<Sum>x\<in>#mset xs. mset (k x))"
  by (induction xs) simp_all

lemma mset_long_of_Cons:
  "mset (long_of ycs (r # rows))
     = mset (long_of_row ycs r [0..<length ycs]) + mset (long_of ycs rows)"
proof -
  have "mset (long_of ycs (r # rows))
      = (\<Sum>x\<in>#mset (melt ycs (r # rows)). mset (drop1 (conv x)))"
    by (simp add: long_of_def mset_concat_map)
  also have "\<dots> = (\<Sum>x\<in>#mset (map (\<lambda>j. (dims_of r, ycs ! j, cell r j)) [0..<length ycs]).
        mset (drop1 (conv x))) + (\<Sum>x\<in>#mset (melt ycs rows). mset (drop1 (conv x)))"
    by (simp only: mset_melt_Cons image_mset_union sum_mset.union)
  also have "\<dots> = mset (long_of_row ycs r [0..<length ycs]) + mset (long_of ycs rows)"
    by (simp add: long_of_def long_of_row_def mset_concat_map comp_def
        image_mset.compositionality)
  finally show ?thesis .
qed

text \<open>When every label converts, \<open>to_long_format\<close> returns and stores the sorted long rows.\<close>

lemma to_long_format_total:
  assumes "cleaned_df st = Some rows" and "year_cols st = Some ycs"
    and "\<forall>y\<in>set ycs. \<exists>n. astype_int y = Inr n"
  shows "to_long_format st =
     (Inr (sort_values (long_of ycs rows)),
      st\<lparr>long_df := Some (sort_values (long_of ycs rows))\<rparr>)"
proof -
  have "\<forall>x\<in>set (melt ycs rows). \<exists>n. astype_int (fst (snd x)) = Inr n"
    using assms(3) melt_labels by blast
  then have "convert_years (melt ycs rows) = Inr (map conv (melt ycs rows))"
    by (rule convert_years_total)
  then show ?thesis
    by (simp add: to_long_format_def assms(1,2) dropna_concat long_of_def Let_def)
qed

lemma length_long_of_row: "length (long_of_row ycs r js) = length (notna (map (cell r) js))"
  by (induction js)
     (auto simp: long_of_row_def notna_def drop1_def conv_def split: option.splits)

lemma length_long_of: "length (long_of ycs rows) = non_missing ycs rows"
proof (induction rows)
  case Nil
  then show ?case by (simp add: long_of_def melt_def non_missing_def)
next
  case (Cons r rows)
  have "length (long_of ycs (r # rows)) = size (mset (long_of ycs (r # rows)))"
    by (simp only: size_mset)
  also have "\<dots> = length (long_of_row ycs r [0..<length ycs]) + length (long_of ycs rows)"
    by (simp only: mset_long_of_Cons size_union size_mset)
  finally show ?case using Cons.IH
    by (simp add: length_long_of_row non_missing_def row_values_def)
qed

lemma regroup_long_of_row:
  "regroup (long_of_row ycs r js) d n
   = (if dims_of r = d then notna (map (cell r) (filter (\<lambda>j. year_of (ycs ! j) = n) js))
      else [])"
  by (induction js)
     (auto simp: regroup_def long_of_row_def notna_def drop1_def conv_def long_dims_def
       dims_of_def split: option.splits)

lemma mset_regroup: "mset (regroup long d n)
   = image_mset val (filter_mset (\<lambda>l. long_dims l = d \<and> year l = n) (mset long))"
  by (simp add: regroup_def)

lemma regroup_long_of: "mset (regroup (long_of ycs rows) d n) = mset (cells_at ycs rows d n)"
proof (induction rows)
  case Nil
  then show ?case by (simp add: long_of_def melt_def cells_at_def regroup_def)
next
  case (Cons r rows)
  have "mset (regroup (long_of ycs (r # rows)) d n)
      = mset (regroup (long_of_row ycs r [0..<length ycs]) d n)
        + mset (regroup (long_of ycs rows) d n)"
    by (simp only: mset_regroup mset_long_of_Cons filter_union_mset image_mset_union)
  also have "\<dots> = mset (cells_at ycs (r # rows) d n)"
    by (simp add: Cons.IH regroup_long_of_row cells_at_def)
  finally show ?case .
qed

lemma concat_distinct_key:
  assumes "distinct (map f xs)" and "i < length xs"
  shows "concat (map (\<lambda>x. if f x = f (xs ! i) then g x else []) xs) = g (xs ! i)"
  using assms
proof (induction xs arbitrary: i)
  case Nil
  then show ?case by simp
next
  case (Cons x xs)
  show ?case
  proof (cases i)
    case 0
    from Cons.prems(1) have "\<forall>y\<in>set xs. f y \<noteq> f x" by (auto simp: image_iff)
    then have "concat (map (\<lambda>y. if f y = f x then g y else []) xs) = []"
      by (induction xs) auto
    with 0 show ?thesis by simp
  next
    case (Suc k)
    with Cons.prems have k: "k < length xs" and d: "distinct (map f xs)" by simp_all
    from k Cons.prems(1) have "f x \<noteq> f (xs ! k)" by (auto simp: image_iff)
    with Suc Cons.IH [OF d k] show ?thesis by simp
  qed
qed

lemma filter_eq_upt: "filter (\<lambda>k. k = j) [0..<n] = (if j < n then [j] else [])"
  by (induction n) auto

lemma filter_distinct_index:
  assumes "distinct (map f xs)" and "j < length xs"
  shows "filter (\<lambda>k. f (xs ! k) = f (xs ! j)) [0..<length xs] = [j]"
proof -
  have "filter (\<lambda>k. f (xs ! k) = f (xs ! j)) [0..<length xs]
      = filter (\<lambda>k. k = j) [0..<length xs]"
  proof (rule filter_cong [OF refl])
    fix k assume "k \<in> set [0..<length xs]"
    then have k: "k < length xs" by simp
    from assms k have "(map f xs ! k = map f xs ! j) = (k = j)"
      by (simp only: nth_eq_iff_index_eq length_map)
    with k assms(2) show "(f (xs ! k) = f (xs ! j)) = (k = j)" by simp
  qed
  with assms(2) show ?thesis by (simp add: filter_eq_upt)
qed

lemma cells_at_unique:
  assumes "distinct (map dims_of rows)" and "distinct (map year_of ycs)"
    and "i < length rows" and "j < length ycs"
  shows "cells_at ycs rows (dims_of (rows ! i)) (year_of (ycs ! j)) = notna [cell (rows ! i) j]"
proof -
  have "cells_at ycs rows (dims_of (rows ! i)) (year_of (ycs ! j))
      = notna (map (cell (rows ! i))
          (filter (\<lambda>k. year_of (ycs ! k) = year_of (ycs ! j)) [0..<length ycs]))"
    unfolding cells_at_def by (rule concat_distinct_key [OF assms(1,3)])
  also have "\<dots> = notna [cell (rows ! i) j]"
    by (simp only: filter_distinct_index [OF assms(2,4)] list.map)
  finally show ?thesis .
qed

lemma mset_eq_short: "mset xs = mset ys \<Longrightarrow> length ys \<le> 1 \<Longrightarrow> xs = ys"
  by (cases ys; cases "tl ys") (auto simp: mset_single_iff_right)

lemma length_notna_single: "length (notna [c]) \<le> 1"
  by (simp add: notna_def split: option.splits)

text \<open>
  Claim C5: for a cleaned table whose year labels all convert to integers, \<open>to_long_format\<close>
  returns (and stores) a long table with exactly as many rows as the table has cells that
  are not missing; grouping the long rows back by dimensions and year gives, for every key,
  exactly the values of the cleaned cells under that key; and when no two rows share their
  dimensions and no two labels their year, the group of a cell holds the value of that cell
  and nothing else, or is empty when the cell is missing.
\<close>

theorem long_format_round_trip:
  assumes "cleaned_df st = Some rows" and "year_cols st = Some ycs"
    and "\<forall>y\<in>set ycs. \<exists>n. astype_int y = Inr n"
  shows "\<exists>long. to_long_format st = (Inr long, st\<lparr>long_df := Some long\<rparr>)
           \<and> length long = non_missing ycs rows
           \<and> (\<forall>d n. mset (regroup long d n) = mset (cells_at ycs rows d n))
           \<and> (distinct (map dims_of rows) \<and> distinct (map year_of ycs) \<longrightarrow>
                (\<forall>i<length rows. \<forall>j<length ycs.
                   regroup long (dims_of (rows ! i)) (year_of (ycs ! j))
                     = notna [cell (rows ! i) j]))"
proof -
  let ?long = "sort_values (long_of ycs rows)"
  have run: "to_long_format st = (Inr ?long, st\<lparr>long_df := Some ?long\<rparr>)"
    by (rule to_long_format_total [OF assms])
  have len: "length ?long = non_missing ycs rows"
    by (simp add: sort_values_def length_long_of)
  have grp: "mset (regroup ?long d n) = mset (cells_at ycs rows d n)" for d n
    using regroup_long_of [of ycs rows d n] by (simp add: mset_regroup sort_values_def)
  have uniq: "regroup ?long (dims_of (rows ! i)) (year_of (ycs ! j)) = notna [cell (rows ! i) j]"
    if "distinct (map dims_of rows)" "distinct (map year_of ycs)" "i < length rows"
      "j < length ycs" for i j
  proof (rule mset_eq_short)
    show "mset (regroup ?long (dims_of (rows ! i)) (year_of (ycs ! j)))
        = mset (notna [cell (rows ! i) j])"
      by (simp only: grp cells_at_unique [OF that])
    show "length (notna [cell (rows ! i) j]) \<le> 1" by (rule length_notna_single)
  qed
  from run len grp uniq show ?thesis by blast
qed

lemma example_years_convert:
  "astype_int ''2020'' = Inr 2020" "astype_int ''2021'' = Inr 2021"
  "astype_int ''2022'' = Inr 2022"
  by (simp_all add: astype_int_def py_int_def py_strip_def is_space_def strip_sign_def
      is_digit_def digits_val_def digit_val_def)

theorem long_format_round_trip_witness:
  "cleaned_df example_cleaner = Some example_rows
   \<and> year_cols example_cleaner = Some example_years
   \<and> map astype_int example_years = [Inr 2020, Inr 2021, Inr 2022]
   \<and> distinct (map dims_of example_rows) \<and> distinct (map year_of example_years)
   \<and> to_long_format example_cleaner
       = (Inr example_long, example_cleaner\<lparr>long_df := Some example_long\<rparr>)
   \<and> length example_long = non_missing example_years example_rows
   \<and> length example_long = 7
   \<and> regroup example_long (dims_of (example_rows ! 1)) (year_of (example_years ! 2)) = [6]
   \<and> regroup example_long (dims_of (example_rows ! 1)) (year_of (example_years ! 1)) = []"
proof -
  have h1: "cleaned_df example_cleaner = Some example_rows"
    by (simp add: example_cleaner_def)
  have h2: "year_cols example_cleaner = Some example_years"
    by (simp add: example_cleaner_def)
  have h3: "\<forall>y\<in>set example_years. \<exists>n. astype_int y = Inr n"
    by (simp add: example_years_def example_years_convert)
  have d1: "distinct (map dims_of example_rows)"
    by (simp add: example_rows_def dims_of_def)
  have d2: "distinct (map year_of example_years)"
    by (simp add: example_years_def year_of_def example_years_convert)
  have i: "1 < length example_rows" by (simp add: example_rows_def)
  have j: "1 < length example_years" "2 < length example_years"
    by (simp_all add: example_years_def)
  have c: "notna [cell (example_rows ! 1) 2] = [6]" "notna [cell (example_rows ! 1) 1] = []"
    by (simp_all add: example_rows_def cell_def notna_def)
  from long_format_round_trip [OF h1 h2 h3] obtain long where long:
    "to_long_format example_cleaner = (Inr long, example_cleaner\<lparr>long_df := Some long\<rparr>)"
    "length long = non_missing example_years example_rows"
    "distinct (map dims_of example_rows) \<and> distinct (map year_of example_years) \<longrightarrow>
       (\<forall>i<length example_rows. \<forall>j<length example_years.
          regroup long (dims_of (example_rows ! i)) (year_of (example_years ! j))
            = notna [cell (example_rows ! i) j])"
    by blast
  have "fst (to_long_format example_cleaner) = Inr long"
    by (simp only: long(1) fst_conv)
  moreover have "fst (to_long_format example_cleaner) = Inr example_long"
    by (simp only: example_to_long fst_conv)
  ultimately have "(Inr long :: py_error + long_row list) = Inr example_long"
    by (rule trans [OF sym])
  then have eq: "long = example_long" by (simp only: sum.inject)
  from long(3) d1 d2 i j c have
    "regroup long (dims_of (example_rows ! 1)) (year_of (example_years ! 2)) = [6]"
    "regroup long (dims_of (example_rows ! 1)) (year_of (example_years ! 1)) = []"
    by auto
  moreover have "length example_long = 7" by (simp add: example_long_def)
  moreover have "map astype_int example_years = [Inr 2020, Inr 2021, Inr 2022]"
    by (simp add: example_years_def example_years_convert)
  ultimately show ?thesis
    using h1 h2 d1 d2 example_to_long long(2) unfolding eq by simp
qed

section \<open>Statistics: properties\<close>

lemma np_min_spec: "vs \<noteq> [] \<Longrightarrow> np_min vs \<in> set vs \<and> (\<forall>v\<in>set vs. np_min vs \<le> v)"
  by (induction vs rule: np_min.induct) (auto simp: min_def)

lemma np_max_spec: "vs \<noteq> [] \<Longrightarrow> np_max vs \<in> set vs \<and> (\<forall>v\<in>set vs. v \<le> np_max vs)"
  by (induction vs rule: np_max.induct) (auto simp: max_def)

lemma np_mean_spec: "vs \<noteq> [] \<Longrightarrow> np_mean vs * real (length vs) = sum_list vs"
  by (simp add: np_mean_def)

lemma sq_dev_nonneg: "0 \<le> sq_dev vs"
  unfolding sq_dev_def by (rule sum_list_nonneg) auto

lemma pd_std_spec: "is_sample_std vs (pd_std vs)"
proof (cases "length vs \<le> 1")
  case True
  then show ?thesis by (simp add: pd_std_def is_sample_std_def)
next
  case False
  then have n: "2 \<le> length vs" by simp
  let ?x = "sq_dev vs / real (length vs - 1)"
  from n have pos: "0 < real (length vs - 1)" by simp
  with sq_dev_nonneg [of vs] have x: "0 \<le> ?x" by simp
  then have "(sqrt ?x)\<^sup>2 * real (length vs - 1) = sq_dev vs"
    using pos by simp
  with n x False show ?thesis
    by (simp add: pd_std_def is_sample_std_def sq_dev_def np_mean_def)
qed

lemma count_prefix:
  assumes "k \<le> length s" and "\<forall>i<k. P (s ! i)"
  shows "k \<le> length (filter P s)"
proof -
  have "filter P (take k s) = take k s"
    using assms by (auto simp: filter_id_conv in_set_conv_nth)
  moreover have "filter P s = filter P (take k s) @ filter P (drop k s)"
    by (metis append_take_drop_id filter_append)
  ultimately show ?thesis using assms(1) by simp
qed

lemma length_filter_sort: "length (filter P (sort vs)) = length (filter P vs)"
proof -
  have "mset (filter P (sort vs)) = mset (filter P vs)" by simp
  then show ?thesis by (metis size_mset)
qed

lemma length_filter_mono:
  "(\<And>v. v \<in> set vs \<Longrightarrow> P v \<Longrightarrow> Q v) \<Longrightarrow> length (filter P vs) \<le> length (filter Q vs)"
  by (induction vs) auto

text \<open>In a sorted list the value at index \<open>i\<close> is at rank \<open>i\<close>, and no other value is.\<close>

lemma sorted_at_rank:
  assumes "sorted s" and "i < length s"
  shows "at_rank s i (s ! i)"
proof -
  have above: "\<not> v < s ! i" if "v \<in> set (drop i s)" for v
  proof -
    from that obtain k where k: "k < length (drop i s)" "v = drop i s ! k"
      by (auto simp: in_set_conv_nth)
    then have "v = s ! (i + k)" "i + k < length s" by simp_all
    with assms(1) have "s ! i \<le> v" by (simp add: sorted_iff_nth_mono)
    then show ?thesis by simp
  qed
  then have "filter (\<lambda>v. v < s ! i) (drop i s) = []"
    by (simp add: filter_empty_conv)
  moreover have "filter (\<lambda>v. v < s ! i) s
      = filter (\<lambda>v. v < s ! i) (take i s) @ filter (\<lambda>v. v < s ! i) (drop i s)"
    by (metis append_take_drop_id filter_append)
  ultimately have "length (filter (\<lambda>v. v < s ! i) s)
      = length (filter (\<lambda>v. v < s ! i) (take i s))"
    by simp
  also have "\<dots> \<le> length (take i s)" by (rule length_filter_le)
  also have "\<dots> \<le> i" by simp
  finally have lo: "length (filter (\<lambda>v. v < s ! i) s) \<le> i" .
  have "Suc i \<le> length (filter (\<lambda>v. v \<le> s ! i) s)"
  proof (rule count_prefix)
    show "Suc i \<le> length s" using assms(2) by simp
    show "\<forall>j<Suc i. s ! j \<le> s ! i"
      using assms by (auto simp: sorted_iff_nth_mono less_Suc_eq_le)
  qed
  with lo show ?thesis by (simp add: at_rank_def)
qed

lemma at_rank_sort: "at_rank (sort vs) i x = at_rank vs i x"
  by (simp add: at_rank_def length_filter_sort)

lemma at_rank_unique:
  assumes "at_rank vs i x" and "at_rank vs i y"
  shows "x = y"
proof -
  have le: "a \<le> b" if a: "at_rank vs i a" and b: "at_rank vs i b" for a b
  proof (rule ccontr)
    assume "\<not> a \<le> b"
    then have "b < a" by simp
    then have "length (filter (\<lambda>v. v \<le> b) vs) \<le> length (filter (\<lambda>v. v < a) vs)"
      by (intro length_filter_mono) simp
    with a b show False by (simp add: at_rank_def)
  qed
  from le [OF assms] le [OF assms(2,1)] show ?thesis by simp
qed

lemma is_median_unique:
  assumes "is_median vs a" and "is_median vs b"
  shows "a = b"
proof -
  from assms(1) obtain lo hi where a: "at_rank vs ((length vs - 1) div 2) lo"
    "at_rank vs (length vs div 2) hi" "a = (lo + hi) / 2"
    unfolding is_median_def by blast
  from assms(2) obtain lo' hi' where b: "at_rank vs ((length vs - 1) div 2) lo'"
    "at_rank vs (length vs div 2) hi'" "b = (lo' + hi') / 2"
    unfolding is_median_def by blast
  from a(1) b(1) have "lo = lo'" by (rule at_rank_unique)
  moreover from a(2) b(2) have "hi = hi'" by (rule at_rank_unique)
  ultimately show ?thesis using a(3) b(3) by simp
qed

text \<open>\<open>Series.median()\<close> gives the median.\<close>

lemma pd_median_spec:
  assumes "vs \<noteq> []"
  shows "is_median vs (pd_median vs)"
proof -
  let ?s = "sort vs" and ?n = "length vs"
  let ?i = "(?n - 1) div 2" and ?k = "?n div 2"
  from assms have n: "0 < ?n" by simp
  then have "?i < ?n" and "?k < ?n" by arith+
  then have i: "?i < length ?s" and k: "?k < length ?s" by simp_all
  have srt: "sorted ?s" by simp
  from sorted_at_rank [OF srt i] have lo: "at_rank vs ?i (?s ! ?i)"
    by (simp only: at_rank_sort)
  from sorted_at_rank [OF srt k] have hi: "at_rank vs ?k (?s ! ?k)"
    by (simp only: at_rank_sort)
  from nth_mem [OF i] have lo_in: "?s ! ?i \<in> set vs" by simp
  from nth_mem [OF k] have hi_in: "?s ! ?k \<in> set vs" by simp
  have m: "pd_median vs = (?s ! ?i + ?s ! ?k) / 2"
  proof (cases "odd ?n")
    case True
    then have "?i = ?k" by (auto elim: oddE)
    with True show ?thesis by (simp add: pd_median_def Let_def)
  next
    case False
    with n have "?i = ?k - 1" by (auto elim!: evenE)
    with False show ?thesis by (simp add: pd_median_def Let_def)
  qed
  from lo hi lo_in hi_in m show ?thesis
    unfolding is_median_def by blast
qed

lemma five_stats_ok:
  assumes "vs \<noteq> []"
  shows "five_stats vs \<lparr>g_key = g, g_data_points = length vs, g_mean = np_mean vs,
     g_median = pd_median vs, g_min = np_min vs, g_max = np_max vs\<rparr>"
  using np_min_spec [OF assms] np_max_spec [OF assms] pd_median_spec [OF assms]
    np_mean_spec [OF assms]
  by (simp add: five_stats_def)

lemma period_stats_ok:
  assumes "vs \<noteq> []"
  shows "period_stats vs y \<lparr>y_label = y, y_count = length vs, y_mean = np_mean vs,
     y_median = pd_median vs, y_std = pd_std vs\<rparr>"
  using pd_median_spec [OF assms] np_mean_spec [OF assms] pd_std_spec [of vs]
  by (simp add: period_stats_def)

text \<open>
  A loop that emits one item for each element passing a test emits, in order, exactly one
  item for each of the elements that pass it.
\<close>

lemma list_all2_filter_concat:
  assumes "\<And>x. x \<in> set xs \<Longrightarrow> P x \<Longrightarrow> Q x (f x)"
  shows "list_all2 Q (filter P xs) (concat (map (\<lambda>x. if P x then [f x] else []) xs))"
  using assms by (induction xs) auto

lemma enumerate_map_upt: "enumerate 0 ycs = map (\<lambda>j. (j, ycs ! j)) [0..<length ycs]"
proof (rule nth_equalityI)
  show "length (enumerate 0 ycs) = length (map (\<lambda>j. (j, ycs ! j)) [0..<length ycs])" by simp
next
  fix i assume "i < length (enumerate 0 ycs)"
  then have i: "i < length ycs" by simp
  then show "enumerate 0 ycs ! i = map (\<lambda>j. (j, ycs ! j)) [0..<length ycs] ! i"
    by (simp add: nth_enumerate_eq)
qed

lemma year_lines_upt:
  "concat (map (year_line rows) (enumerate 0 ycs))
     = concat (map (\<lambda>j. if column rows j \<noteq> []
         then [\<lparr>y_label = ycs ! j, y_count = length (column rows j),
                 y_mean = np_mean (column rows j), y_median = pd_median (column rows j),
                 y_std = pd_std (column rows j)\<rparr>]
         else []) [0..<length ycs])"
  by (simp add: enumerate_map_upt year_line_def Let_def o_def)

text \<open>One line for every period column that has a value, in the order of the columns.\<close>

lemma year_lines_spec:
  "list_all2 (\<lambda>j l. period_stats (column rows j) (ycs ! j) l)
     (periods_with_values ycs rows) (concat (map (year_line rows) (enumerate 0 ycs)))"
  unfolding year_lines_upt periods_with_values_def
  by (rule list_all2_filter_concat) (rule period_stats_ok)

text \<open>One record for every group that has a value, in the sorted order of the groups.\<close>

lemma stats_by_spec:
  "list_all2 (\<lambda>g s. g_key s = g \<and> five_stats (group_values col ycs rows g) s)
     (groups_with_values col ycs rows) (stats_by col ycs rows)"
  unfolding stats_by_def groups_with_values_def group_values_def Let_def
    length_greater_0_conv
  by (rule list_all2_filter_concat) (simp add: five_stats_ok)

lemma example_summary:
  "summary_stats example_cleaner = (Inr (example_by_geo, example_by_mode), example_cleaner)"
  by code_simp

lemma example_columns:
  "column example_rows 0 = [10, 12, 14]" "column example_rows (Suc 0) = [10, 10]"
  "column example_rows (Suc (Suc 0)) = [6, 6]"
  by (simp_all add: column_def example_rows_def cell_def notna_def)

lemma example_std:
  "pd_std [10, 12, 14] = Some 2" "pd_std [10, 10] = Some 0" "pd_std [6, 6] = Some 0"
  by (simp_all add: pd_std_def sq_dev_def np_mean_def power2_eq_square)

lemma example_trends:
  "analyze_trends example_cleaner = (Inr example_report, example_cleaner)"
  by (simp add: analyze_trends_def example_cleaner_def example_years_def init_def
      example_report_def year_line_def example_columns example_std np_mean_def pd_median_def
      overall_trend_def pd_mean_def np_div_def)

lemma example_periods: "periods_with_values example_years example_rows = [0, 1, 2]"
  by code_simp

lemma example_groups:
  "groups_with_values geo example_years example_rows = [''BE'', ''DE'', ''NL'']"
  "groups_with_values tra_mode example_years example_rows = [''IWW'', ''RAIL'', ''ROAD'']"
  by code_simp+

text \<open>
  Claim C6, as the code has it: the year-over-year table of \<open>analyze_trends\<close> has one line
  for each year column with at least one value, in the order of the columns and for no other
  column, and the line reports the label of the column, the count, the mean and the median
  of its values and their sample standard deviation (divisor \<open>n - 1\<close>, NaN for a single
  value); each of the two tables of \<open>summary_stats\<close>, by country and by transport mode, has
  one record for each distinct group with at least one value, in sorted order of the groups
  and for no other group, and the record holds the count, mean, median, minimum and maximum
  of the values of the group, and no standard deviation.
\<close>

theorem std_only_by_period:
  assumes "cleaned_df st = Some rows" and "year_cols st = Some ycs" and "ycs \<noteq> []"
  shows "\<exists>rep by_geo by_mode.
           analyze_trends st = (Inr rep, st) \<and> summary_stats st = (Inr (by_geo, by_mode), st)
         \<and> list_all2 (\<lambda>j l. period_stats (column rows j) (ycs ! j) l)
             (periods_with_values ycs rows) (year_lines rep)
         \<and> list_all2 (\<lambda>g s. g_key s = g \<and> five_stats (group_values geo ycs rows g) s)
             (groups_with_values geo ycs rows) by_geo
         \<and> list_all2 (\<lambda>g s. g_key s = g \<and> five_stats (group_values tra_mode ycs rows g) s)
             (groups_with_values tra_mode ycs rows) by_mode"
proof -
  let ?rep = "\<lparr>year_lines = concat (map (year_line rows) (enumerate 0 ycs)),
      overall = overall_trend ycs rows\<rparr>"
  have a: "analyze_trends st = (Inr ?rep, st)"
    using assms by (simp add: analyze_trends_def)
  have b: "summary_stats st = (Inr (stats_by geo ycs rows, stats_by tra_mode ycs rows), st)"
    using assms by (simp add: summary_stats_def)
  have c: "list_all2 (\<lambda>j l. period_stats (column rows j) (ycs ! j) l)
      (periods_with_values ycs rows) (year_lines ?rep)"
    using year_lines_spec [of rows ycs] by simp
  from a b c stats_by_spec [of geo ycs rows] stats_by_spec [of tra_mode ycs rows]
  show ?thesis by blast
qed

theorem std_only_by_period_witness:
  "cleaned_df example_cleaner = Some example_rows
   \<and> year_cols example_cleaner = Some example_years \<and> example_years \<noteq> []
   \<and> analyze_trends example_cleaner = (Inr example_report, example_cleaner)
   \<and> summary_stats example_cleaner = (Inr (example_by_geo, example_by_mode), example_cleaner)
   \<and> list_all2 (\<lambda>j l. period_stats (column example_rows j) (example_years ! j) l)
       [0, 1, 2] (year_lines example_report)
   \<and> list_all2 (\<lambda>g s. g_key s = g \<and> five_stats (group_values geo example_years example_rows g) s)
       [''BE'', ''DE'', ''NL''] example_by_geo
   \<and> list_all2
       (\<lambda>g s. g_key s = g \<and> five_stats (group_values tra_mode example_years example_rows g) s)
       [''IWW'', ''RAIL'', ''ROAD''] example_by_mode"
proof -
  have h1: "cleaned_df example_cleaner = Some example_rows"
    by (simp add: example_cleaner_def)
  have h2: "year_cols example_cleaner = Some example_years"
    by (simp add: example_cleaner_def)
  have h3: "example_years \<noteq> []" by (simp add: example_years_def)
  from std_only_by_period [OF h1 h2 h3] obtain rep by_geo by_mode where r:
    "analyze_trends example_cleaner = (Inr rep, example_cleaner)"
    "summary_stats example_cleaner = (Inr (by_geo, by_mode), example_cleaner)"
    "list_all2 (\<lambda>j l. period_stats (column example_rows j) (example_years ! j) l)
       (periods_with_values example_years example_rows) (year_lines rep)"
    "list_all2 (\<lambda>g s. g_key s = g \<and> five_stats (group_values geo example_years example_rows g) s)
       (groups_with_values geo example_years example_rows) by_geo"
    "list_all2
       (\<lambda>g s. g_key s = g \<and> five_stats (group_values tra_mode example_years example_rows g) s)
       (groups_with_values tra_mode example_years example_rows) by_mode"
    by blast
  have "fst (analyze_trends example_cleaner) = Inr rep" by (simp only: r(1) fst_conv)
  moreover have "fst (analyze_trends example_cleaner) = Inr example_report"
    by (simp only: example_trends fst_conv)
  ultimately have "(Inr rep :: py_error + trend_report) = Inr example_report"
    by (rule trans [OF sym])
  then have rep: "rep = example_report" by (simp only: sum.inject)
  have "fst (summary_stats example_cleaner) = Inr (by_geo, by_mode)"
    by (simp only: r(2) fst_conv)
  moreover have "fst (summary_stats example_cleaner) = Inr (example_by_geo, example_by_mode)"
    by (simp only: example_summary fst_conv)
  ultimately have "(Inr (by_geo, by_mode) :: py_error + group_stats list \<times> group_stats list)
      = Inr (example_by_geo, example_by_mode)"
    by (rule trans [OF sym])
  then have tabs: "by_geo = example_by_geo" "by_mode = example_by_mode"
    by (simp_all only: sum.inject prod.inject)
  note lines = r(3) [unfolded rep example_periods]
  note countries = r(4) [unfolded tabs example_groups]
  note modes = r(5) [unfolded tabs example_groups]
  show ?thesis
    by (intro conjI h1 h2 h3 example_trends example_summary lines countries modes)
qed

text \<open>
  Claim C6, as stated, fails on the kind of standard deviation: for the year 2020 of the
  example, with the values 10, 12 and 14, \<open>analyze_trends\<close> reports 2, which is the sample
  standard deviation; the population standard deviation is the square root of 8/3.
\<close>

theorem std_is_not_population:
  "analyze_trends example_cleaner = (Inr example_report, example_cleaner)
   \<and> y_std (year_lines example_report ! 0) = Some 2
   \<and> column example_rows 0 = [10, 12, 14]
   \<and> is_sample_std [10, 12, 14] (Some 2)
   \<and> \<not> is_population_std [10, 12, 14] (Some 2)"
  by (simp add: example_trends example_columns example_report_def is_sample_std_def
      is_population_std_def power2_eq_square)

section \<open>The overall trend\<close>

text \<open>With a first mean of zero the reported percent change is never a finite number.\<close>

lemma zero_baseline_not_finite:
  assumes "overall_trend ycs rows = Some t" and "first_mean t = 0"
  shows "pct_change t = PosInf \<or> pct_change t = NegInf \<or> pct_change t = NaN"
  using assms
  by (auto simp: overall_trend_def np_div_def Let_def split: option.splits if_splits)

text \<open>
  Claim C4: when the mean of the first year is exactly zero, the percent change is reported
  as an explicit undefined value, never as zero, an infinity or an exception. On a table
  whose first year holds the single value 0 and whose last year holds 5, \<open>analyze_trends\<close>
  divides the change 5 by the mean 0 and reports the percent change \<open>+inf\<close>.
\<close>

theorem zero_baseline_gives_infinity:
  "analyze_trends zero_baseline_cleaner =
     (Inr \<lparr>year_lines =
         [\<lparr>y_label = ''2020'', y_count = 1, y_mean = 0, y_median = 0, y_std = None\<rparr>,
          \<lparr>y_label = ''2021'', y_count = 1, y_mean = 5, y_median = 5, y_std = None\<rparr>],
        overall = Some \<lparr>first_year = ''2020'', last_year = ''2021'', first_mean = 0,
          last_mean = 5, change = 5, pct_change = PosInf\<rparr>\<rparr>, zero_baseline_cleaner)"
  by (simp add: analyze_trends_def zero_baseline_cleaner_def init_def year_line_def column_def
      cell_def notna_def pd_std_def np_mean_def pd_median_def overall_trend_def pd_mean_def
      np_div_def)

section \<open>Cleaning a cleaned value again\<close>

declare nat_str.simps [simp del]

lemma py_strip_subset: "set (py_strip s) \<subseteq> set s"
  by (auto simp: py_strip_def dest!: set_dropWhileD)

lemma strip_flags_id:
  "\<forall>c\<in>set s. \<not> (is_letter c \<or> c = CHR '' '' \<or> c = CHR '':'') \<Longrightarrow> strip_flags s = s"
  by (simp add: strip_flags_def filter_id_conv)

lemma strip_flags_clean:
  "c \<in> set (strip_flags s) \<Longrightarrow> \<not> (is_letter c \<or> c = CHR '' '' \<or> c = CHR '':'')"
  by (simp add: strip_flags_def)

lemma dropWhile_id: "s \<noteq> [] \<Longrightarrow> \<not> P (hd s) \<Longrightarrow> dropWhile P s = s"
  by (cases s) auto

text \<open>Stripping twice is stripping once.\<close>

lemma py_strip_idem: "py_strip (py_strip s) = py_strip s"
proof (cases "py_strip s = []")
  case True
  have "py_strip [] = []" by (simp add: py_strip_def)
  with True show ?thesis by simp
next
  case False
  let ?u = "dropWhile is_space s"
  let ?w = "dropWhile is_space (rev ?u)"
  have t: "py_strip s = rev ?w" by (simp add: py_strip_def)
  with False have w: "?w \<noteq> []" by simp
  then have hw: "\<not> is_space (hd ?w)" by (rule hd_dropWhile)
  have "rev ?u = takeWhile is_space (rev ?u) @ ?w" by simp
  then have "?u = rev ?w @ rev (takeWhile is_space (rev ?u))"
    by (metis rev_append rev_rev_ident)
  with w have hd_eq: "hd (rev ?w) = hd ?u" by (metis hd_append2 rev_is_Nil_conv)
  have "?u \<noteq> []"
  proof
    assume "?u = []"
    then have "?w = []" by (simp only: rev.simps(1) dropWhile.simps(1))
    with w show False by (simp only: not_True_eq_False)
  qed
  then have "\<not> is_space (hd ?u)" by (rule hd_dropWhile)
  with hd_eq have "\<not> is_space (hd (rev ?w))" by simp
  with w have a: "dropWhile is_space (rev ?w) = rev ?w" by (simp add: dropWhile_id)
  from w hw have b: "dropWhile is_space ?w = ?w" by (simp add: dropWhile_id)
  show ?thesis unfolding t by (simp add: py_strip_def [of "rev ?w"] a b)
qed

lemma py_float_strip: "py_float (py_strip s) = py_float s"
  by (simp add: py_float_def py_strip_idem)

lemma py_float_blank: "py_strip s = [] \<Longrightarrow> py_float s = None"
  by (simp add: py_float_def strip_sign_def py_lower_def parse_floatnumber_def parse_number_def)

lemma missing_token_chars:
  "t \<in> set missing_tokens \<Longrightarrow> t = [] \<or> CHR '':'' \<in> set t"
  by (auto simp: missing_tokens_def)

lemma is_lower_letter: "is_lower c \<Longrightarrow> is_letter c"
  by (simp add: is_letter_def)

text \<open>The cell left after deleting letters, blanks and colons cleans to the same value.\<close>

lemma reclean_stripped_string:
  assumes "clean_value (Some x) = Some v"
  shows "clean_value (Some (strip_flags (py_strip x))) = Some v
       \<and> extract_flags (Some (strip_flags (py_strip x))) = []"
proof -
  let ?c = "strip_flags (py_strip x)"
  from assms have c: "?c \<noteq> []" and v: "py_float ?c = Some v"
    by (auto simp: clean_value_def Let_def split: if_splits)
  have clean: "\<forall>ch\<in>set (py_strip ?c). \<not> (is_letter ch \<or> ch = CHR '' '' \<or> ch = CHR '':'')"
    using py_strip_subset [of ?c] strip_flags_clean by blast
  have ne: "py_strip ?c \<noteq> []"
    using v py_float_blank [of ?c] by auto
  have "py_strip ?c \<notin> set missing_tokens"
    using missing_token_chars [of "py_strip ?c"] ne clean by blast
  moreover have "strip_flags (py_strip ?c) = py_strip ?c"
    by (rule strip_flags_id [OF clean])
  ultimately have "clean_value (Some ?c) = py_float (py_strip ?c)"
    using ne by (simp add: clean_value_def Let_def)
  then have first: "clean_value (Some ?c) = Some v"
    by (simp add: py_float_strip v)
  have "filter is_lower (py_strip ?c) = []"
    using clean is_lower_letter by (auto simp: filter_empty_conv)
  then have "extract_flags (Some ?c) = []" by (simp add: extract_flags_def)
  with first show ?thesis by simp
qed

lemma digit_char_props: "d < 10 \<Longrightarrow> is_digit (digit_char d) \<and> digit_val (digit_char d) = d"
proof -
  assume "d < 10"
  then have "d \<in> {0,1,2,3,4,5,6,7,8,9}" by auto
  then show ?thesis
    by (auto simp: digit_char_def is_digit_def digit_val_def)
qed

lemma nat_str_digits: "c \<in> set (nat_str n) \<Longrightarrow> is_digit c"
proof (induction n rule: nat_str.induct)
  case (1 n)
  then show ?case
    by (subst (asm) nat_str.simps) (auto simp: digit_char_props split: if_splits)
qed

lemma nat_str_not_Nil: "nat_str n \<noteq> []"
  by (subst nat_str.simps) simp

lemma digits_val_snoc:
  "is_digit c \<Longrightarrow> digits_val (s @ [c]) = 10 * digits_val s + digit_val c"
  by (simp add: digits_val_def)

text \<open>Reading the decimal digits of a number gives the number back.\<close>

lemma digits_val_nat_str: "digits_val (nat_str n) = n"
proof (induction n rule: nat_str.induct)
  case (1 n)
  show ?case
  proof (cases "n < 10")
    case True
    then show ?thesis
      by (subst nat_str.simps) (simp add: digits_val_def digit_char_props)
  next
    case False
    with 1 have "digits_val (nat_str (n div 10)) = n div 10" by simp
    with False show ?thesis
      by (subst nat_str.simps) (simp add: digits_val_snoc digit_char_props)
  qed
qed

lemma digitpart_digits: "s \<noteq> [] \<Longrightarrow> \<forall>c\<in>set s. is_digit c \<Longrightarrow> digitpart s"
proof (induction s rule: digitpart.induct)
  case (3 c d cs)
  then have "d \<noteq> CHR ''_''" by (auto simp: is_digit_def)
  with 3 show ?case by simp
qed simp_all

lemma digitpart_nat_str: "digitpart (nat_str n)"
  using digitpart_digits nat_str_not_Nil nat_str_digits by blast

lemma is_digit_cases:
  "is_digit c \<Longrightarrow> c = CHR ''0'' \<or> c = CHR ''1'' \<or> c = CHR ''2'' \<or> c = CHR ''3''
     \<or> c = CHR ''4'' \<or> c = CHR ''5'' \<or> c = CHR ''6'' \<or> c = CHR ''7'' \<or> c = CHR ''8''
     \<or> c = CHR ''9''"
  by (simp add: is_digit_def)

lemma digit_facts:
  assumes "is_digit c"
  shows "\<not> is_space c" "\<not> is_letter c" "c \<noteq> CHR '' ''" "c \<noteq> CHR '':''" "c \<noteq> CHR ''.''"
    "c \<noteq> CHR ''-''" "c \<noteq> CHR ''+''" "c \<noteq> CHR ''e''" "c \<noteq> CHR ''E''" "lower_char c = c"
  using is_digit_cases [OF assms]
  by (elim disjE; simp add: is_space_def is_letter_def is_lower_def is_upper_def lower_char_def)+

lemma py_strip_no_space: "\<forall>c\<in>set s. \<not> is_space c \<Longrightarrow> py_strip s = s"
proof -
  assume a: "\<forall>c\<in>set s. \<not> is_space c"
  then have "dropWhile is_space s = s" by (cases s) auto
  moreover from a have "dropWhile is_space (rev s) = rev s" by (cases "rev s") auto
  ultimately show ?thesis by (simp add: py_strip_def)
qed

lemma parse_number_int: "parse_number (nat_str n @ ''.0'') = Some (real n)"
proof -
  have nd: "\<forall>c\<in>set (nat_str n). c \<noteq> CHR ''.''"
    using nat_str_digits digit_facts(5) by blast
  then have tw: "takeWhile (\<lambda>c. c \<noteq> CHR ''.'') (nat_str n @ ''.0'') = nat_str n"
    by (simp add: takeWhile_append2)
  from nd have dw: "dropWhile (\<lambda>c. c \<noteq> CHR ''.'') (nat_str n @ ''.0'') = ''.0''"
    by (simp add: dropWhile_append2)
  have z: "digitpart ''0''" "digits_val ''0'' = 0" "filter is_digit ''0'' = ''0''"
    by (simp_all add: is_digit_def digits_val_def digit_val_def)
  show ?thesis
    unfolding parse_number_def Let_def tw dw
    by (simp add: z digitpart_nat_str digits_val_nat_str is_digit_def)
qed

text \<open>\<open>float\<close> reads the string form of an integer-valued float back as that integer.\<close>

lemma py_float_int: "py_float (nat_str n @ ''.0'') = Some (Finite (real n))"
  and py_float_neg_int: "py_float (CHR ''-'' # nat_str n @ ''.0'') = Some (Finite (- real n))"
proof -
  let ?d = "nat_str n @ ''.0''"
  have dig: "\<forall>c\<in>set (nat_str n). is_digit c" using nat_str_digits by blast
  have zero: "is_digit CHR ''0''" by (simp add: is_digit_def)
  have chars: "\<forall>c\<in>set ?d. is_digit c \<or> c = CHR ''.''" using dig zero by auto
  have dot: "\<not> is_space CHR ''.''" "lower_char CHR ''.'' = CHR ''.''" "\<not> is_space CHR ''-''"
    by (simp_all add: is_space_def lower_char_def)
  have nosp: "\<forall>c\<in>set ?d. \<not> is_space c" using chars digit_facts(1) dot(1) by blast
  then have st: "py_strip ?d = ?d" by (rule py_strip_no_space)
  from nosp dot have "\<forall>c\<in>set (CHR ''-'' # ?d). \<not> is_space c" by simp
  then have st': "py_strip (CHR ''-'' # ?d) = CHR ''-'' # ?d" by (rule py_strip_no_space)
  obtain h t where ht: "nat_str n = h # t" using nat_str_not_Nil by (cases "nat_str n") auto
  with dig have h: "is_digit h" by simp
  have sg: "strip_sign ?d = (False, ?d)"
    using digit_facts(6,7) [OF h] by (simp add: strip_sign_def ht)
  have sg': "strip_sign (CHR ''-'' # ?d) = (True, ?d)"
    by (simp add: strip_sign_def)
  have "lower_char c = c" if "c \<in> set ?d" for c
    using that chars digit_facts(10) dot(2) by blast
  then have "map lower_char ?d = ?d" by (rule map_idI)
  then have low: "py_lower ?d = ?d" by (simp only: py_lower_def)
  have indot: "CHR ''.'' \<in> set ?d" by simp
  have notin: "CHR ''.'' \<notin> set ''inf''" "CHR ''.'' \<notin> set ''infinity''"
    "CHR ''.'' \<notin> set ''nan''"
    by simp_all
  have names: "?d \<noteq> ''inf''" "?d \<noteq> ''infinity''" "?d \<noteq> ''nan''"
    using indot notin by metis+
  have dote: "CHR ''.'' \<noteq> CHR ''e'' \<and> CHR ''.'' \<noteq> CHR ''E''" by simp
  have noe: "\<forall>c\<in>set ?d. c \<noteq> CHR ''e'' \<and> c \<noteq> CHR ''E''"
    using chars digit_facts(8,9) dote by blast
  then have tw: "takeWhile (\<lambda>c. c \<noteq> CHR ''e'' \<and> c \<noteq> CHR ''E'') ?d = ?d"
    by (simp only: takeWhile_eq_all_conv)
  from noe have dw: "dropWhile (\<lambda>c. c \<noteq> CHR ''e'' \<and> c \<noteq> CHR ''E'') ?d = []"
    by (simp only: dropWhile_eq_Nil_conv)
  have pf: "parse_floatnumber ?d = Some (real n)"
    unfolding parse_floatnumber_def Let_def tw dw by (simp only: list.case parse_number_int)
  show "py_float ?d = Some (Finite (real n))"
    unfolding py_float_def st sg using names by (simp add: low pf)
  show "py_float (CHR ''-'' # ?d) = Some (Finite (- real n))"
    unfolding py_float_def st' sg' using names by (simp add: low pf)
qed

lemma clean_value_plain:
  assumes "s \<noteq> []"
    and "\<forall>c\<in>set s. \<not> is_space c \<and> \<not> is_letter c \<and> c \<noteq> CHR '' '' \<and> c \<noteq> CHR '':''"
  shows "clean_value (Some s) = py_float s" and "extract_flags (Some s) = []"
proof -
  from assms(2) have st: "py_strip s = s" by (simp add: py_strip_no_space)
  have nm: "s \<notin> set missing_tokens"
    using missing_token_chars [of s] assms by blast
  from assms(2) have sf: "strip_flags s = s" by (simp add: strip_flags_id)
  show "clean_value (Some s) = py_float s"
    by (simp add: clean_value_def st nm sf assms(1) Let_def)
  from assms(2) have "\<forall>c\<in>set s. \<not> is_lower c" using is_lower_letter by blast
  then have "filter is_lower s = []" by (simp add: filter_empty_conv)
  then show "extract_flags (Some s) = []" by (simp add: extract_flags_def st)
qed

text \<open>The string form of an integer value up to \<open>2^53\<close> cleans to that value, without flags.\<close>

lemma reclean_int_str:
  assumes "\<bar>v\<bar> = real n" and "n \<le> 2 ^ 53"
  shows "\<exists>s. py_str_float (Finite v) = Some s \<and> clean_value (Some s) = Some (Finite v)
           \<and> extract_flags (Some s) = []"
proof -
  let ?d = "nat_str n @ ''.0''"
  let ?s = "(if v < 0 then ''-'' else []) @ ?d"
  from assms(1) have n: "nat \<lfloor>\<bar>v\<bar>\<rfloor> = n" by simp
  have str: "py_str_float (Finite v) = Some ?s"
    using assms by (simp add: py_str_float_def Let_def n)
  have dig: "\<forall>c\<in>set (nat_str n). is_digit c" using nat_str_digits by blast
  have other: "\<not> is_space CHR ''.''" "\<not> is_letter CHR ''.''" "\<not> is_space CHR ''-''"
    "\<not> is_letter CHR ''-''" "\<not> is_space CHR ''0''" "\<not> is_letter CHR ''0''"
    by (simp_all add: is_space_def is_letter_def is_lower_def is_upper_def)
  have "\<not> is_space c \<and> \<not> is_letter c \<and> c \<noteq> CHR '' '' \<and> c \<noteq> CHR '':''"
    if "c \<in> set ?s" for c
  proof -
    from that have "c \<in> set (nat_str n) \<or> c = CHR ''.'' \<or> c = CHR ''0'' \<or> c = CHR ''-''"
      by (auto split: if_splits)
    then show ?thesis
    proof (elim disjE)
      assume "c \<in> set (nat_str n)"
      with dig have "is_digit c" by blast
      then show ?thesis using digit_facts(1-4) by blast
    qed (simp_all add: other)
  qed
  then have plain:
    "\<forall>c\<in>set ?s. \<not> is_space c \<and> \<not> is_letter c \<and> c \<noteq> CHR '' '' \<and> c \<noteq> CHR '':''"
    by blast
  have ne: "?s \<noteq> []" by simp
  have val: "py_float ?s = Some (Finite v)"
  proof (cases "v < 0")
    case True
    with assms(1) have "v = - real n" by simp
    with True show ?thesis using py_float_neg_int [of n] by simp
  next
    case False
    with assms(1) have "v = real n" by simp
    with False show ?thesis using py_float_int [of n] by simp
  qed
  from clean_value_plain [OF ne plain] val str show ?thesis by simp
qed

lemma nat_str_16: "nat_str 16 = ''16''"
  by (simp add: nat_str.simps [of 16] nat_str.simps [of "Suc 0"] digit_char_def)

text \<open>
  Claim C8 fails in the code: cleaning the string form of a cleaned value does not always
  give the value back. The cell \<open>10000000000000000\<close> cleans to the definite value \<open>10^16\<close>,
  whose string form is \<open>1e+16\<close>; cleaning that string takes the \<open>e\<close> of the exponent for a
  flag letter, deletes it and finds \<open>1+16\<close>, which is no number: the result is \<open>None\<close>, the
  value is lost, and the flag set is not empty but holds \<open>e\<close>.
\<close>

theorem reclean_exponent_form:
  "clean_value (Some ''10000000000000000'') = Some (Finite (10 ^ 16))
   \<and> py_str_float (Finite (10 ^ 16)) = Some ''1e+16''
   \<and> clean_value (Some ''1e+16'') = None
   \<and> extract_flags (Some ''1e+16'') = [''e'']"
proof -
  have "clean_value (Some ''10000000000000000'') = Some (Finite (10 ^ 16))"
    by (simp add: cell_defs)
  moreover have "py_str_float (Finite (10 ^ 16)) = Some ''1e+16''"
    by (simp add: py_str_float_def Let_def nat_str_16 upt_rec)
  moreover have "clean_value (Some ''1e+16'') = None" "extract_flags (Some ''1e+16'') = [''e'']"
    by (simp_all add: cell_defs)
  ultimately show ?thesis by simp
qed

end
